theory Spec2Isabelle
  imports Main "HOL-Library.Sublist"
begin

section \<open>JavaScript values handled by the plugin system\<close>

text \<open>
  The values that flow between plugin code and \<^verbatim>\<open>src/lib/plugin-system.ts\<close>: what a
  hook returns, what it throws, and what ends up in the result and error maps. Numbers
  are integers here (dimensions, epoch milliseconds); \<open>JErr m\<close> is an \<^verbatim>\<open>Error\<close> object
  whose \<^verbatim>\<open>message\<close> is \<open>m\<close>; \<open>JDate t\<close> is a \<^verbatim>\<open>Date\<close> with time value \<open>t\<close>.
\<close>

datatype jsval =
    JUndefined
  | JNull
  | JBool bool
  | JNum int
  | JStr string
  | JDate int
  | JErr string
  | JArr "jsval list"
  | JObj "(string \<times> jsval) list"

text \<open>JavaScript truthiness, as used by \<^verbatim>\<open>if (x)\<close> and \<^verbatim>\<open>x || y\<close>.\<close>

fun truthy :: "jsval \<Rightarrow> bool" where
  "truthy JUndefined = False"
| "truthy JNull = False"
| "truthy (JBool b) = b"
| "truthy (JNum n) = (n \<noteq> 0)"
| "truthy (JStr s) = (s \<noteq> [])"
| "truthy (JDate t) = True"
| "truthy (JErr m) = True"
| "truthy (JArr xs) = True"
| "truthy (JObj fs) = True"

text \<open>
  Property read \<^verbatim>\<open>v.k\<close> for the property names the code reads (\<^verbatim>\<open>message\<close>,
  \<^verbatim>\<open>currentDate\<close>, \<^verbatim>\<open>data\<close>). Reading a property of \<^verbatim>\<open>null\<close> or \<^verbatim>\<open>undefined\<close>
  throws a TypeError: that is \<open>None\<close>. A missing property reads as \<^verbatim>\<open>undefined\<close>.
\<close>

fun getProp :: "jsval \<Rightarrow> string \<Rightarrow> jsval option" where
  "getProp JUndefined k = None"
| "getProp JNull k = None"
| "getProp (JErr m) k = Some (if k = ''message'' then JStr m else JUndefined)"
| "getProp (JObj fs) k = Some (case map_of fs k of Some v \<Rightarrow> v | None \<Rightarrow> JUndefined)"
| "getProp v k = Some JUndefined"

text \<open>The TypeError raised by reading a property of \<^verbatim>\<open>null\<close> or \<^verbatim>\<open>undefined\<close>.\<close>

definition propertyOfNullError :: jsval where
  "propertyOfNullError = JErr ''Cannot read properties of null or undefined''"

section \<open>The store: objects shared by reference, and the clock\<close>

type_synonym addr = nat

datatype viewMode = Year | Life

datatype closure =
    HostFormatDate
  | HostGetWeeksLived
  | HostGetCurrentDayOfYear
  | PluginClosure nat

record utils_obj =
  formatDate :: closure
  getWeeksLived :: closure
  getCurrentDayOfYear :: closure

text \<open>
  \<^verbatim>\<open>Omit<PluginContext, 'settings'>\<close> and \<^verbatim>\<open>PluginContext\<close>, with the fields of the
  object that \<^verbatim>\<open>createPluginContext\<close> builds. The fields \<^verbatim>\<open>currentDate\<close>, \<^verbatim>\<open>utils\<close> and
  \<^verbatim>\<open>settings\<close> hold objects, so they are addresses.
\<close>

record base_context =
  currentDate :: addr
  birthDate :: string
  width :: int
  height :: int
  viewMode :: viewMode
  utils :: addr

record plugin_context = base_context +
  settings :: addr

datatype hobj =
    HDate int
  | HSettings "(string \<times> jsval) list"
  | HUtils utils_obj
  | HContext plugin_context

text \<open>
  A property that plugin code has set on the global object (\<^verbatim>\<open>globalThis\<close>): a value, or a
  function, given by the text of its body.
\<close>

datatype global = GlobalValue jsval | GlobalFunction string

text \<open>
  \<open>clock\<close> is the wall clock in milliseconds: plugin code advances it while it runs
  synchronously, and waiting on a promise advances it by the time waited. \<open>globals\<close> holds
  what plugin code has put on the global object, which all plugin bodies share.
\<close>

record store =
  heap :: "addr \<Rightarrow> hobj option"
  nextAddr :: addr
  clock :: nat
  globals :: "string \<Rightarrow> global option"

definition alloc :: "hobj \<Rightarrow> store \<Rightarrow> addr \<times> store" where
  "alloc obj st = (nextAddr st, st\<lparr>heap := (heap st)(nextAddr st \<mapsto> obj), nextAddr := Suc (nextAddr st)\<rparr>)"

section \<open>What a plugin source text does when it runs\<close>

text \<open>
  The executors build \<^verbatim>\<open>new Function('context', 'Math', ..., body)\<close> where \<^verbatim>\<open>body\<close> is
  the plugin source followed by an epilogue, and call it. What the source text means is
  decided by the JavaScript engine, which is not part of the repository: it is the
  parameter \<open>js\<close> of the executors. For a source text the engine either rejects the body
  (\<open>SyntaxError\<close>) or yields the behaviour of the plugin's top-level statements, run with
  the context object and the store. The top-level statements either leave the function
  body themselves (a top-level \<^verbatim>\<open>return\<close> or \<^verbatim>\<open>throw\<close>, or they never finish), or run
  to their end. Then the plugin text has declared each of the names \<^verbatim>\<open>calculate\<close> and
  \<^verbatim>\<open>render\<close> as a function, or as something that is not a function, or not at all
  (\<open>Unbound\<close>); a name it has not declared is looked up on the global object. The
  epilogue runs in the same function body, so the \<^verbatim>\<open>Error\<close> of its
  \<^verbatim>\<open>throw new Error(...)\<close> is whatever that name denotes there: the built-in
  constructor, or what the plugin has put in its place, given by what \<^verbatim>\<open>new Error(m)\<close>
  then does.

  A call completes by returning a plain value, by returning a promise (which settles
  after some milliseconds, or never), by throwing, or not at all.
\<close>

datatype settle = Fulfils jsval | Rejects jsval

datatype completion =
    Returns jsval
  | ReturnsPromise "nat option" settle
  | Throws jsval
  | Diverges

type_synonym hook = "addr \<Rightarrow> store \<Rightarrow> completion \<times> store"

datatype binding = Unbound | NotFunction jsval | Function hook

datatype errorBinding = BuiltinError | ShadowedError "string \<Rightarrow> store \<Rightarrow> completion \<times> store"

record bindings =
  calculate :: binding
  render :: binding
  errorConstructor :: errorBinding

datatype toplevel = Exits completion | Defines bindings

datatype compiled = SyntaxError string | Compiled "addr \<Rightarrow> store \<Rightarrow> toplevel \<times> store"

type_synonym engine = "string \<Rightarrow> compiled"

section \<open>The executors\<close>

definition PLUGIN_TIMEOUT_MS :: nat where
  "PLUGIN_TIMEOUT_MS = 500"

text \<open>
  An \<^verbatim>\<open>async\<close> function returns a promise: fulfilled with a value, rejected with a
  thrown value, or never settled because the thread never leaves the function.
\<close>

datatype 'a promise = Fulfilled 'a | RejectedWith jsval | Forever

record exec_result =
  result :: jsval
  error :: jsval

text \<open>
  The \<^verbatim>\<open>catch (error: any)\<close> block of both executors:
  \<^verbatim>\<open>return { result: null, error: error.message || 'Plugin execution failed' }\<close>.
  Reading \<^verbatim>\<open>error.message\<close> throws inside the handler when the thrown value is
  \<^verbatim>\<open>null\<close> or \<^verbatim>\<open>undefined\<close>, and the promise of the executor is rejected.
\<close>

definition catchHandler :: "jsval \<Rightarrow> store \<Rightarrow> (exec_result \<times> store) promise" where
  "catchHandler e st =
     (case getProp e ''message'' of
        None \<Rightarrow> RejectedWith propertyOfNullError
      | Some m \<Rightarrow>
          Fulfilled (\<lparr>result = JNull,
                      error = (if truthy m then m else JStr ''Plugin execution failed'')\<rparr>, st))"

definition advance :: "nat \<Rightarrow> store \<Rightarrow> store" where
  "advance ms st = st\<lparr>clock := clock st + ms\<rparr>"

text \<open>
  \<^verbatim>\<open>await Promise.race([Promise.resolve(pluginFunction(...)), new Promise((_, reject) =>
  setTimeout(() => reject(new Error('Plugin execution timeout')), PLUGIN_TIMEOUT_MS))])\<close>
  followed by \<^verbatim>\<open>return { result, error: null }\<close>, inside the \<^verbatim>\<open>try\<close>.
  The array elements are evaluated in order, so the plugin function has already completed
  its synchronous run when the timer is created: a plain return value wins the race
  whatever time it took, a throw reaches the \<^verbatim>\<open>catch\<close> block directly, and a call that
  never returns leaves nothing to race. Only a returned promise competes with the timer;
  it wins when it settles within the timeout.
\<close>

definition raceWithTimeout :: "completion \<Rightarrow> store \<Rightarrow> (exec_result \<times> store) promise" where
  "raceWithTimeout c st =
     (case c of
        Returns v \<Rightarrow> Fulfilled (\<lparr>result = v, error = JNull\<rparr>, st)
      | Throws e \<Rightarrow> catchHandler e st
      | Diverges \<Rightarrow> Forever
      | ReturnsPromise None s \<Rightarrow>
          catchHandler (JErr ''Plugin execution timeout'') (advance PLUGIN_TIMEOUT_MS st)
      | ReturnsPromise (Some ms) s \<Rightarrow>
          (if ms \<le> PLUGIN_TIMEOUT_MS then
             (case s of
                Fulfils v \<Rightarrow> Fulfilled (\<lparr>result = v, error = JNull\<rparr>, advance ms st)
              | Rejects e \<Rightarrow> catchHandler e (advance ms st))
           else catchHandler (JErr ''Plugin execution timeout'') (advance PLUGIN_TIMEOUT_MS st)))"

text \<open>
  Calling a function that sits on the global object: its body runs with the argument and
  the store; a body that ends without \<^verbatim>\<open>return\<close> gives \<^verbatim>\<open>undefined\<close>.
\<close>

definition callGlobal :: "engine \<Rightarrow> string \<Rightarrow> hook" where
  "callGlobal js txt context st =
     (case js txt of
        SyntaxError m \<Rightarrow> (Throws (JErr m), st)
      | Compiled body \<Rightarrow>
          (case body context st of
             (Exits c, st1) \<Rightarrow> (c, st1)
           | (Defines b, st1) \<Rightarrow> (Returns JUndefined, st1)))"

text \<open>
  What the name of an entry point denotes at the epilogue: the declaration of the plugin
  text, or else the property of the global object.
\<close>

definition resolve :: "engine \<Rightarrow> string \<Rightarrow> binding \<Rightarrow> store \<Rightarrow> binding" where
  "resolve js name declared st =
     (case declared of
        Unbound \<Rightarrow>
          (case globals st name of
             None \<Rightarrow> Unbound
           | Some (GlobalValue v) \<Rightarrow> NotFunction v
           | Some (GlobalFunction txt) \<Rightarrow> Function (callGlobal js txt))
      | _ \<Rightarrow> declared)"

text \<open>
  \<^verbatim>\<open>throw new Error(message)\<close> in the epilogue, inside the \<^verbatim>\<open>try\<close>: the value that
  \<^verbatim>\<open>new Error(message)\<close> gives there, or what it throws, reaches the \<^verbatim>\<open>catch\<close> block.
\<close>

definition throwNewError :: "errorBinding \<Rightarrow> string \<Rightarrow> store \<Rightarrow> (exec_result \<times> store) promise" where
  "throwNewError eb message st =
     (case eb of
        BuiltinError \<Rightarrow> catchHandler (JErr message) st
      | ShadowedError construct \<Rightarrow>
          (case construct message st of
             (Returns v, st1) \<Rightarrow> catchHandler v st1
           | (ReturnsPromise d s, st1) \<Rightarrow> catchHandler (JObj []) st1
           | (Throws e, st1) \<Rightarrow> catchHandler e st1
           | (Diverges, st1) \<Rightarrow> Forever))"

text \<open>
  The body shared by \<^verbatim>\<open>executePluginCalculation\<close> and \<^verbatim>\<open>executePluginRender\<close>, which
  differ in the entry point they require (its name, and \<open>entry\<close> for its declaration) and
  in the message of the epilogue:
  \<^verbatim>\<open>if (typeof calculate !== 'function') { throw new Error('Plugin must export a
  calculate() function'); } return calculate(context);\<close>
\<close>

definition executeHook ::
  "string \<Rightarrow> (bindings \<Rightarrow> binding) \<Rightarrow> string \<Rightarrow> engine \<Rightarrow> string \<Rightarrow> addr \<Rightarrow> store
     \<Rightarrow> (exec_result \<times> store) promise" where
  "executeHook name entry missing js pluginCode context st =
     (case js pluginCode of
        SyntaxError m \<Rightarrow> catchHandler (JErr m) st
      | Compiled body \<Rightarrow>
          (case body context st of
             (Exits c, st1) \<Rightarrow> raceWithTimeout c st1
           | (Defines b, st1) \<Rightarrow>
               (case resolve js name (entry b) st1 of
                  Function f \<Rightarrow> (case f context st1 of (c, st2) \<Rightarrow> raceWithTimeout c st2)
                | _ \<Rightarrow> throwNewError (errorConstructor b) missing st1)))"

definition executePluginCalculation ::
  "engine \<Rightarrow> string \<Rightarrow> addr \<Rightarrow> store \<Rightarrow> (exec_result \<times> store) promise" where
  "executePluginCalculation =
     executeHook ''calculate'' calculate ''Plugin must export a calculate() function''"

definition executePluginRender ::
  "engine \<Rightarrow> string \<Rightarrow> addr \<Rightarrow> store \<Rightarrow> (exec_result \<times> store) promise" where
  "executePluginRender =
     executeHook ''render'' render ''Plugin must export a render() function''"

section \<open>The orchestrator\<close>

text \<open>
  A JavaScript \<^verbatim>\<open>Map\<close> iterates in insertion order, and \<^verbatim>\<open>set\<close> on a key that is
  already present replaces the value where it stands.
\<close>

fun mapSet :: "string \<Rightarrow> 'v \<Rightarrow> (string \<times> 'v) list \<Rightarrow> (string \<times> 'v) list" where
  "mapSet k v [] = [(k, v)]"
| "mapSet k v ((k', v') # m) = (if k = k' then (k, v) # m else (k', v') # mapSet k v m)"

definition mapGet :: "(string \<times> 'v) list \<Rightarrow> string \<Rightarrow> 'v option" where
  "mapGet m k = map_of m k"

text \<open>
  Modelled from the spec: the types \<^verbatim>\<open>PluginConfig\<close> and \<^verbatim>\<open>Plugin\<close> are declared in
  \<^verbatim>\<open>./types\<close>, which is not among the sources. A PluginConfig is a plugin slug, an
  enabled flag and a settings mapping (an object, hence an address); of a plugin
  definition only the source code text is read here.
\<close>

record pluginConfig =
  id' :: string
  enabled :: bool
  settings :: addr

record plugin =
  code :: string

record process_result =
  calculationResults :: "(string \<times> jsval) list"
  renderResults :: "(string \<times> jsval) list"
  errors :: "(string \<times> jsval) list"

text \<open>\<^verbatim>\<open>await p\<close> followed by the rest of the function.\<close>

definition awaitThen :: "'a promise \<Rightarrow> ('a \<Rightarrow> 'b promise) \<Rightarrow> 'b promise" where
  "awaitThen p k = (case p of Fulfilled x \<Rightarrow> k x | RejectedWith e \<Rightarrow> RejectedWith e | Forever \<Rightarrow> Forever)"

text \<open>
  \<^verbatim>\<open>const context: PluginContext = { ...baseContext, settings: pluginConfig.settings }\<close>:
  a new object whose fields are copied from \<^verbatim>\<open>baseContext\<close>; fields that hold objects
  are copied as references.
\<close>

definition pluginContext :: "base_context \<Rightarrow> pluginConfig \<Rightarrow> store \<Rightarrow> addr \<times> store" where
  "pluginContext baseContext cfg st =
     alloc (HContext (base_context.extend baseContext
                        \<lparr>plugin_context.settings = pluginConfig.settings cfg\<rparr>)) st"

definition recordCalculation :: "string \<Rightarrow> exec_result \<Rightarrow> process_result \<Rightarrow> process_result" where
  "recordCalculation pid calcResult acc =
     (if truthy (error calcResult) then
        acc\<lparr>errors := mapSet pid (error calcResult) (errors acc)\<rparr>
      else if truthy (result calcResult) then
        acc\<lparr>calculationResults := mapSet pid (result calcResult) (calculationResults acc)\<rparr>
      else acc)"

definition recordRender :: "string \<Rightarrow> exec_result \<Rightarrow> process_result \<Rightarrow> process_result" where
  "recordRender pid renderResult acc =
     (if truthy (error renderResult) then
        acc\<lparr>errors := mapSet pid (error renderResult) (errors acc)\<rparr>
      else if truthy (result renderResult) then
        acc\<lparr>renderResults := mapSet pid (result renderResult) (renderResults acc)\<rparr>
      else acc)"

text \<open>
  \<^verbatim>\<open>const calcResult = await executePluginCalculation(pluginDef.code, context)\<close> with the
  \<^verbatim>\<open>if\<close> that records its outcome, and the same for the render hook.
\<close>

definition calculationStep ::
  "engine \<Rightarrow> string \<Rightarrow> string \<Rightarrow> addr \<Rightarrow> process_result \<times> store
     \<Rightarrow> (process_result \<times> store) promise" where
  "calculationStep js pid pluginCode context s =
     (case s of (acc, st) \<Rightarrow>
        awaitThen (executePluginCalculation js pluginCode context st)
          (\<lambda>(calcResult, st1). Fulfilled (recordCalculation pid calcResult acc, st1)))"

definition renderStep ::
  "engine \<Rightarrow> string \<Rightarrow> string \<Rightarrow> addr \<Rightarrow> process_result \<times> store
     \<Rightarrow> (process_result \<times> store) promise" where
  "renderStep js pid pluginCode context s =
     (case s of (acc, st) \<Rightarrow>
        awaitThen (executePluginRender js pluginCode context st)
          (\<lambda>(renderResult, st1). Fulfilled (recordRender pid renderResult acc, st1)))"

text \<open>One iteration of the \<^verbatim>\<open>for (const pluginConfig of plugins)\<close> loop.\<close>

definition processPlugin ::
  "engine \<Rightarrow> (string \<Rightarrow> plugin option) \<Rightarrow> base_context \<Rightarrow> pluginConfig
     \<Rightarrow> process_result \<times> store \<Rightarrow> (process_result \<times> store) promise" where
  "processPlugin js pluginDefinitions baseContext cfg s =
     (case s of (acc, st) \<Rightarrow>
        if \<not> enabled cfg then Fulfilled (acc, st)
        else
          (case pluginDefinitions (id' cfg) of
             None \<Rightarrow>
               Fulfilled (acc\<lparr>errors := mapSet (id' cfg) (JStr ''Plugin definition not found'')
                                          (errors acc)\<rparr>, st)
           | Some pluginDef \<Rightarrow>
               (case pluginContext baseContext cfg st of (context, st0) \<Rightarrow>
                  awaitThen (calculationStep js (id' cfg) (code pluginDef) context (acc, st0))
                    (renderStep js (id' cfg) (code pluginDef) context))))"

fun processLoop ::
  "engine \<Rightarrow> (string \<Rightarrow> plugin option) \<Rightarrow> base_context \<Rightarrow> pluginConfig list
     \<Rightarrow> process_result \<times> store \<Rightarrow> (process_result \<times> store) promise" where
  "processLoop js pluginDefinitions baseContext [] s = Fulfilled s"
| "processLoop js pluginDefinitions baseContext (cfg # rest) s =
     awaitThen (processPlugin js pluginDefinitions baseContext cfg s)
       (processLoop js pluginDefinitions baseContext rest)"

definition processPlugins ::
  "engine \<Rightarrow> pluginConfig list \<Rightarrow> (string \<Rightarrow> plugin option) \<Rightarrow> base_context \<Rightarrow> store
     \<Rightarrow> (process_result \<times> store) promise" where
  "processPlugins js plugins pluginDefinitions baseContext st =
     processLoop js pluginDefinitions baseContext plugins
       (\<lparr>calculationResults = [], renderResults = [], errors = []\<rparr>, st)"

section \<open>The result merger\<close>

text \<open>
  \<^verbatim>\<open>pluginData\<close> is a plain object created by \<^verbatim>\<open>{}\<close>: \<open>pluginData\<close> holds its own
  properties and \<open>pluginDataProto\<close> its prototype when that is no longer
  \<^verbatim>\<open>Object.prototype\<close>. The assignment \<^verbatim>\<open>pluginData[pluginId] = result.data\<close> creates an
  own property, except for the key \<^verbatim>\<open>__proto__\<close>: there it replaces the prototype when
  the value is an object and does nothing otherwise.
\<close>

record merged =
  currentDate :: jsval
  pluginData :: "string \<Rightarrow> jsval option"
  pluginDataProto :: "jsval option"

fun isObject :: "jsval \<Rightarrow> bool" where
  "isObject (JDate t) = True"
| "isObject (JErr m) = True"
| "isObject (JArr xs) = True"
| "isObject (JObj fs) = True"
| "isObject v = False"

definition assignData :: "string \<Rightarrow> jsval \<Rightarrow> merged \<Rightarrow> merged" where
  "assignData pluginId bag m =
     (if pluginId = ''__proto__'' then
        (if isObject bag then m\<lparr>pluginDataProto := Some bag\<rparr> else m)
      else m\<lparr>pluginData := (pluginData m)(pluginId \<mapsto> bag)\<rparr>)"

text \<open>
  The loop over \<^verbatim>\<open>calculationResults.entries()\<close>. Reading \<^verbatim>\<open>result.currentDate\<close> of a
  \<^verbatim>\<open>null\<close> or \<^verbatim>\<open>undefined\<close> entry throws (\<open>Inl\<close>).
\<close>

fun mergeLoop :: "(string \<times> jsval) list \<Rightarrow> merged \<Rightarrow> jsval + merged" where
  "mergeLoop [] m = Inr m"
| "mergeLoop ((pluginId, r) # rest) m =
     (case getProp r ''currentDate'' of
        None \<Rightarrow> Inl propertyOfNullError
      | Some d \<Rightarrow>
          (case getProp r ''data'' of
             None \<Rightarrow> Inl propertyOfNullError
           | Some bag \<Rightarrow>
               mergeLoop rest
                 ((if truthy bag then assignData pluginId bag else (\<lambda>m. m))
                    (if truthy d then m\<lparr>currentDate := d\<rparr> else m))))"

definition mergePluginResults :: "jsval \<Rightarrow> (string \<times> jsval) list \<Rightarrow> jsval + merged" where
  "mergePluginResults baseDate results =
     mergeLoop results
       \<lparr>currentDate = baseDate, pluginData = Map.empty, pluginDataProto = None\<rparr>"

section \<open>The static validator\<close>

text \<open>
  The regular expressions of \<^verbatim>\<open>dangerousPatterns\<close> use literal characters, \<^verbatim>\<open>\s\<close>,
  \<^verbatim>\<open>*\<close> and \<^verbatim>\<open>+\<close>, with the flag \<^verbatim>\<open>i\<close>. Source texts are strings of 8-bit characters
  here. Without the \<^verbatim>\<open>u\<close> flag, case-insensitive matching compares upper-cased
  characters and never lets a non-ASCII character match an ASCII one, so on the ASCII
  patterns below it is ASCII case folding: \<open>canonicalize\<close> gives the character code
  that is compared.
\<close>

datatype atom = Ch char | Whitespace

datatype item = One atom | Star atom | Plus atom

definition canonicalize :: "char \<Rightarrow> nat" where
  "canonicalize c =
     (let n = (of_char c :: nat) in if 97 \<le> n \<and> n \<le> 122 then n - 32 else n)"

definition isWhitespace :: "char \<Rightarrow> bool" where
  "isWhitespace c = ((of_char c :: nat) \<in> {9, 10, 11, 12, 13, 32, 160})"

fun atomMatches :: "atom \<Rightarrow> char \<Rightarrow> bool" where
  "atomMatches (Ch p) c = (canonicalize c = canonicalize p)"
| "atomMatches Whitespace c = isWhitespace c"

text \<open>
  Does the pattern match a prefix of the text? A backtracking matcher: \<^verbatim>\<open>*\<close> first tries
  the rest of the pattern, then one more repetition.
\<close>

fun matchHere :: "item list \<Rightarrow> string \<Rightarrow> bool" where
  "matchHere [] s = True"
| "matchHere (One a # r) [] = False"
| "matchHere (One a # r) (c # cs) = (if atomMatches a c then matchHere r cs else False)"
| "matchHere (Star a # r) [] = matchHere r []"
| "matchHere (Star a # r) (c # cs) =
     (if matchHere r (c # cs) then True
      else if atomMatches a c then matchHere (Star a # r) cs else False)"
| "matchHere (Plus a # r) [] = False"
| "matchHere (Plus a # r) (c # cs) = (if atomMatches a c then matchHere (Star a # r) cs else False)"

text \<open>\<^verbatim>\<open>pattern.test(code)\<close> on a fresh regular expression: a match at some position.\<close>

fun regexTest :: "item list \<Rightarrow> string \<Rightarrow> bool" where
  "regexTest p [] = matchHere p []"
| "regexTest p (c # cs) = (if matchHere p (c # cs) then True else regexTest p cs)"

definition lit :: "string \<Rightarrow> item list" where
  "lit s = map (\<lambda>c. One (Ch c)) s"

definition dangerousPatterns :: "(item list \<times> string) list" where
  "dangerousPatterns =
     [(lit ''eval'' @ [Star Whitespace] @ lit ''('', ''eval() is not allowed''),
      (lit ''Function'' @ [Star Whitespace] @ lit ''('', ''Function constructor is not allowed''),
      (lit ''import'' @ [Plus Whitespace], ''import statements are not allowed''),
      (lit ''require'' @ [Star Whitespace] @ lit ''('', ''require() is not allowed''),
      (lit ''process.'', ''process access is not allowed''),
      (lit ''global.'', ''global access is not allowed''),
      (lit ''fetch'' @ [Star Whitespace] @ lit ''('', ''fetch() is not allowed''),
      (lit ''XMLHttpRequest'', ''XMLHttpRequest is not allowed''),
      (lit ''__dirname'', ''__dirname is not allowed''),
      (lit ''__filename'', ''__filename is not allowed'')]"

text \<open>\<^verbatim>\<open>code.includes(x)\<close>: \<open>x\<close> occurs in the text as a contiguous substring.\<close>

fun stringIncludes :: "string \<Rightarrow> string \<Rightarrow> bool" where
  "stringIncludes [] x = (x = [])"
| "stringIncludes (c # cs) x = (if take (length x) (c # cs) = x then True else stringIncludes cs x)"

record validation =
  valid :: bool
  errors :: "string list"

text \<open>The \<^verbatim>\<open>errors\<close> array of \<^verbatim>\<open>validatePluginCode\<close>, in the order of its pushes.\<close>

definition validationErrors :: "string \<Rightarrow> string list" where
  "validationErrors src =
     map snd (filter (\<lambda>(pattern, message). regexTest pattern src) dangerousPatterns)
     @ (if length src > 50000 then [''Plugin code exceeds maximum length (50KB)''] else [])
     @ (if \<not> stringIncludes src ''function calculate'' \<and> \<not> stringIncludes src ''function render''
        then [''Plugin must define at least calculate() or render() function''] else [])"

definition validatePluginCode :: "string \<Rightarrow> validation" where
  "validatePluginCode src =
     \<lparr>valid = (length (validationErrors src) = 0), errors = validationErrors src\<rparr>"

section \<open>The context builder\<close>

text \<open>
  \<^verbatim>\<open>createPluginContext\<close>. \<^verbatim>\<open>new Date()\<close> reads the clock. The conversion
  \<^verbatim>\<open>new Date(currentDate.toLocaleString('en-US', { timeZone: timezone }))\<close> belongs to
  the runtime and is the parameter \<open>toLocale\<close>, \<open>None\<close> where the time zone is rejected
  and the \<^verbatim>\<open>catch\<close> block keeps the unadjusted date. The \<^verbatim>\<open>settings\<close> argument is an
  object and is stored as it is given.
\<close>

definition createPluginContext ::
  "(string \<Rightarrow> int \<Rightarrow> int option) \<Rightarrow> string \<Rightarrow> int \<Rightarrow> int \<Rightarrow> viewMode \<Rightarrow> addr \<Rightarrow> string option
     \<Rightarrow> store \<Rightarrow> addr \<times> store" where
  "createPluginContext toLocale birth w h mode settingsObj timezone st =
     (case alloc (HDate (int (clock st))) st of (d0, st1) \<Rightarrow>
      case (case timezone of
              None \<Rightarrow> (d0, st1)
            | Some tz \<Rightarrow>
                if tz = [] then (d0, st1)
                else (case toLocale tz (int (clock st)) of
                        None \<Rightarrow> (d0, st1)
                      | Some t \<Rightarrow> alloc (HDate t) st1)) of (d, st2) \<Rightarrow>
      case alloc (HUtils \<lparr>formatDate = HostFormatDate, getWeeksLived = HostGetWeeksLived,
                          getCurrentDayOfYear = HostGetCurrentDayOfYear\<rparr>) st2 of (u, st3) \<Rightarrow>
      alloc (HContext \<lparr>base_context.currentDate = d, birthDate = birth, width = w, height = h,
                        viewMode = mode, utils = u, plugin_context.settings = settingsObj\<rparr>) st3)"

section \<open>Reading the result of an asynchronous call\<close>

definition outcome :: "('a \<times> store) promise \<Rightarrow> 'a promise" where
  "outcome p = (case p of Fulfilled (x, st) \<Rightarrow> Fulfilled x | RejectedWith e \<Rightarrow> RejectedWith e
                | Forever \<Rightarrow> Forever)"

text \<open>The clock when control returns to the caller, if it does.\<close>

definition returnsAt :: "('a \<times> store) promise \<Rightarrow> nat option" where
  "returnsAt p = (case p of Fulfilled (x, st) \<Rightarrow> Some (clock st) | _ \<Rightarrow> None)"

section \<open>Sample plugins\<close>

text \<open>
  Plugin source texts used in the examples below, each with its meaning under
  \<^verbatim>\<open>new Function\<close>, worked out by hand from the JavaScript semantics. String literals
  inside the sources are written with backquotes.
\<close>

definition src_onlyCalculate :: string where
  "src_onlyCalculate = ''function calculate(context) { return { data: { n: 1 } }; }''"

definition src_onlyRender :: string where
  "src_onlyRender = ''function render(context) { return [{ type: `text`, content: `hi`, x: 1, y: 2 }]; }''"

definition src_busyLoop :: string where
  "src_busyLoop = ''function calculate(context) { var t = Date.now(); while (Date.now() - t < 600) {} return { data: { done: true } }; }''"

definition src_endlessLoop :: string where
  "src_endlessLoop = ''function calculate(context) { while (true) {} }''"

definition src_sleep :: string where
  "src_sleep = ''function calculate(context) { return new Promise((resolve) => setTimeout(resolve, 1000)); }''"

definition src_setDate :: string where
  "src_setDate = ''function calculate(context) { context.currentDate.setTime(0); return { data: { n: 1 } }; }''"

definition src_readDate :: string where
  "src_readDate = ''function calculate(context) { return { data: { t: context.currentDate.getTime() } }; }''"

definition src_number :: string where
  "src_number = ''function calculate(context) { return 42; } function render(context) { return 7; }''"

definition src_throwNull :: string where
  "src_throwNull = ''function calculate(context) { throw null; }''"

definition src_throwBoth :: string where
  "src_throwBoth = ''function calculate(context) { throw new Error(`boom`); } function render(context) { throw new Error(`bang`); }''"

definition src_topReturn :: string where
  "src_topReturn = ''return { data: { n: 1 } }; function render(context) { return []; }''"

definition src_topThrow :: string where
  "src_topThrow = ''throw new Error(`boom`); function render(context) { return []; }''"

definition src_shadowError :: string where
  "src_shadowError = ''function Error(m) { this.message = `pwned`; } function render(context) { return []; }''"

definition src_globalRender :: string where
  "src_globalRender = ''function calculate(context) { globalThis.render = (c) => []; return { data: { n: 1 } }; }''"

text \<open>The body of the arrow function that \<open>src_globalRender\<close> puts on the global object.\<close>

definition src_emptyListBody :: string where
  "src_emptyListBody = ''return [];''"

definition src_renderThrows :: string where
  "src_renderThrows = ''function render(context) { throw new Error(`bang`); }''"

definition src_notCallable :: string where
  "src_notCallable = ''var calculate = 5; var render = null;''"

definition src_calculateTotal :: string where
  "src_calculateTotal = ''function calculateTotal(context) { return 1; }''"

definition src_dateA :: string where
  "src_dateA = ''function calculate(context) { return { currentDate: new Date(100), data: { a: 1 } }; }''"

definition src_noDateB :: string where
  "src_noDateB = ''function calculate(context) { return { data: { b: 2 } }; }''"

definition src_dateC :: string where
  "src_dateC = ''function calculate(context) { return { currentDate: new Date(200), data: { c: 3 } }; }''"

definition src_dataFive :: string where
  "src_dataFive = ''function calculate(context) { return { data: 5 }; }''"

definition returning :: "jsval \<Rightarrow> hook" where
  "returning v = (\<lambda>context st. (Returns v, st))"

definition throwing :: "jsval \<Rightarrow> hook" where
  "throwing e = (\<lambda>context st. (Throws e, st))"

text \<open>Top-level statements that only declare, and the source texts made of them.\<close>

definition declaring :: "binding \<Rightarrow> binding \<Rightarrow> addr \<Rightarrow> store \<Rightarrow> toplevel \<times> store" where
  "declaring c r =
     (\<lambda>context st. (Defines \<lparr>calculate = c, render = r, errorConstructor = BuiltinError\<rparr>, st))"

definition declares :: "binding \<Rightarrow> binding \<Rightarrow> compiled" where
  "declares c r = Compiled (declaring c r)"

text \<open>\<^verbatim>\<open>context.currentDate.setTime(0); return { data: { n: 1 } };\<close>\<close>

definition setDateHook :: hook where
  "setDateHook context st =
     (case heap st context of
        Some (HContext cx) \<Rightarrow>
          (case heap st (base_context.currentDate cx) of
             Some (HDate t) \<Rightarrow>
               (Returns (JObj [(''data'', JObj [(''n'', JNum 1)])]),
                st\<lparr>heap := (heap st)(base_context.currentDate cx \<mapsto> HDate 0)\<rparr>)
           | _ \<Rightarrow> (Throws propertyOfNullError, st))
      | _ \<Rightarrow> (Throws propertyOfNullError, st))"

text \<open>\<^verbatim>\<open>return { data: { t: context.currentDate.getTime() } };\<close>\<close>

definition readDateHook :: hook where
  "readDateHook context st =
     (case heap st context of
        Some (HContext cx) \<Rightarrow>
          (case heap st (base_context.currentDate cx) of
             Some (HDate t) \<Rightarrow> (Returns (JObj [(''data'', JObj [(''t'', JNum t)])]), st)
           | _ \<Rightarrow> (Throws propertyOfNullError, st))
      | _ \<Rightarrow> (Throws propertyOfNullError, st))"

definition sampleEngine :: engine where
  "sampleEngine src =
     (if src = src_onlyCalculate then
        declares (Function (returning (JObj [(''data'', JObj [(''n'', JNum 1)])]))) Unbound
      else if src = src_onlyRender then
        declares Unbound
          (Function (returning (JArr [JObj [(''type'', JStr ''text''), (''content'', JStr ''hi''),
                                            (''x'', JNum 1), (''y'', JNum 2)]])))
      else if src = src_busyLoop then
        declares (Function (\<lambda>context st.
                    (Returns (JObj [(''data'', JObj [(''done'', JBool True)])]), advance 600 st)))
          Unbound
      else if src = src_endlessLoop then
        declares (Function (\<lambda>context st. (Diverges, st))) Unbound
      else if src = src_sleep then
        declares (Function (\<lambda>context st. (ReturnsPromise (Some 1000) (Fulfils JUndefined), st)))
          Unbound
      else if src = src_setDate then declares (Function setDateHook) Unbound
      else if src = src_readDate then declares (Function readDateHook) Unbound
      else if src = src_number then
        declares (Function (returning (JNum 42))) (Function (returning (JNum 7)))
      else if src = src_throwNull then declares (Function (throwing JNull)) Unbound
      else if src = src_throwBoth then
        declares (Function (throwing (JErr ''boom''))) (Function (throwing (JErr ''bang'')))
      else if src = src_topReturn then
        Compiled (\<lambda>context st. (Exits (Returns (JObj [(''data'', JObj [(''n'', JNum 1)])])), st))
      else if src = src_topThrow then
        Compiled (\<lambda>context st. (Exits (Throws (JErr ''boom'')), st))
      else if src = src_shadowError then
        Compiled (\<lambda>context st.
          (Defines \<lparr>calculate = Unbound, render = Function (returning (JArr [])),
                     errorConstructor =
                       ShadowedError (\<lambda>m st. (Returns (JObj [(''message'', JStr ''pwned'')]), st))\<rparr>,
           st))
      else if src = src_globalRender then
        declares (Function (\<lambda>context st.
                    (Returns (JObj [(''data'', JObj [(''n'', JNum 1)])]),
                     st\<lparr>globals := (globals st)(''render'' \<mapsto> GlobalFunction src_emptyListBody)\<rparr>)))
          Unbound
      else if src = src_emptyListBody then
        Compiled (\<lambda>context st. (Exits (Returns (JArr [])), st))
      else if src = src_renderThrows then declares Unbound (Function (throwing (JErr ''bang'')))
      else if src = src_notCallable then declares (NotFunction (JNum 5)) (NotFunction JNull)
      else if src = src_calculateTotal then declares Unbound Unbound
      else if src = src_dateA then
        declares (Function (returning (JObj [(''currentDate'', JDate 100),
                                             (''data'', JObj [(''a'', JNum 1)])]))) Unbound
      else if src = src_noDateB then
        declares (Function (returning (JObj [(''data'', JObj [(''b'', JNum 2)])]))) Unbound
      else if src = src_dateC then
        declares (Function (returning (JObj [(''currentDate'', JDate 200),
                                             (''data'', JObj [(''c'', JNum 3)])]))) Unbound
      else if src = src_dataFive then
        declares (Function (returning (JObj [(''data'', JNum 5)]))) Unbound
      else SyntaxError ''Unexpected token'')"

text \<open>
  A store holding the base context's date (address 0, time value 1000), its \<^verbatim>\<open>utils\<close>
  object (address 1) and one settings object (address 2), with an untouched global
  object.
\<close>

definition sampleStore :: store where
  "sampleStore =
     \<lparr>heap = [0 \<mapsto> HDate 1000,
               1 \<mapsto> HUtils \<lparr>formatDate = HostFormatDate, getWeeksLived = HostGetWeeksLived,
                                 getCurrentDayOfYear = HostGetCurrentDayOfYear\<rparr>,
               2 \<mapsto> HSettings []],
      nextAddr = 3, clock = 0, globals = Map.empty\<rparr>"

definition sampleBase :: base_context where
  "sampleBase = \<lparr>base_context.currentDate = 0, birthDate = ''1990-01-01'', width = 1170,
                  height = 2532, viewMode = Year, utils = 1\<rparr>"

definition sampleConfig :: "string \<Rightarrow> pluginConfig" where
  "sampleConfig pid = \<lparr>id' = pid, enabled = True, pluginConfig.settings = 2\<rparr>"

text \<open>A definitions map given by its entries, plugin id and source text.\<close>

definition definitionsOf :: "(string \<times> string) list \<Rightarrow> string \<Rightarrow> plugin option" where
  "definitionsOf entries pid = map_option (\<lambda>src. \<lparr>code = src\<rparr>) (map_of entries pid)"

section \<open>Notions used to state the properties\<close>




text \<open>
  A completion after which the executor returns an outcome: the call returns, and what
  it throws, or rejects with before the timer fires, is not \<^verbatim>\<open>null\<close> or \<^verbatim>\<open>undefined\<close>.
\<close>

definition wellBehaved :: "completion \<Rightarrow> bool" where
  "wellBehaved c =
     (case c of
        Returns v \<Rightarrow> True
      | ReturnsPromise (Some ms) (Rejects e) \<Rightarrow>
          if ms \<le> PLUGIN_TIMEOUT_MS then e \<noteq> JNull \<and> e \<noteq> JUndefined else True
      | ReturnsPromise d s \<Rightarrow> True
      | Throws e \<Rightarrow> e \<noteq> JNull \<and> e \<noteq> JUndefined
      | Diverges \<Rightarrow> False)"

text \<open>
  A source text all of whose runs, top-level statements, hooks and replaced \<^verbatim>\<open>Error\<close>
  constructor, are well behaved; \<^verbatim>\<open>new\<close> never gives \<^verbatim>\<open>null\<close> or \<^verbatim>\<open>undefined\<close>.
\<close>

definition tameHook :: "binding \<Rightarrow> bool" where
  "tameHook b = (case b of Function f \<Rightarrow> (\<forall>c st. wellBehaved (fst (f c st))) | _ \<Rightarrow> True)"

definition tameConstructor :: "errorBinding \<Rightarrow> bool" where
  "tameConstructor eb =
     (case eb of
        BuiltinError \<Rightarrow> True
      | ShadowedError construct \<Rightarrow>
          (\<forall>m st. case fst (construct m st) of
                    Returns v \<Rightarrow> v \<noteq> JNull \<and> v \<noteq> JUndefined
                  | ReturnsPromise d s \<Rightarrow> True
                  | Throws e \<Rightarrow> e \<noteq> JNull \<and> e \<noteq> JUndefined
                  | Diverges \<Rightarrow> False))"

definition tameSource :: "engine \<Rightarrow> string \<Rightarrow> bool" where
  "tameSource js src =
     (case js src of
        SyntaxError m \<Rightarrow> True
      | Compiled body \<Rightarrow>
          (\<forall>c st. case fst (body c st) of
                    Exits cmpl \<Rightarrow> wellBehaved cmpl
                  | Defines b \<Rightarrow> tameHook (calculate b) \<and> tameHook (render b)
                                 \<and> tameConstructor (errorConstructor b)))"

text \<open>
  Every text is tame: then so is every function that a plugin has put on the global
  object, whose body the same engine runs.
\<close>

definition tameEngine :: "engine \<Rightarrow> bool" where
  "tameEngine js = (\<forall>src. tameSource js src)"

text \<open>
  The allocator hands out addresses in increasing order: in an \<open>allocated\<close> store nothing
  lives at or above \<open>nextAddr\<close>. Plugin code cannot forge an address; it creates objects
  through the allocator only, so every run of it keeps the store allocated and never
  moves \<open>nextAddr\<close> back (\<open>grows\<close>). An engine \<open>respectsAllocator\<close> when all code it runs
  does so.
\<close>

definition allocated :: "store \<Rightarrow> bool" where
  "allocated st = (\<forall>a. nextAddr st \<le> a \<longrightarrow> heap st a = None)"

definition grows :: "store \<Rightarrow> store \<Rightarrow> bool" where
  "grows st st' = (allocated st \<longrightarrow> allocated st' \<and> nextAddr st \<le> nextAddr st')"

definition hookGrows :: "binding \<Rightarrow> bool" where
  "hookGrows b = (case b of Function f \<Rightarrow> (\<forall>c st. grows st (snd (f c st))) | _ \<Rightarrow> True)"

definition constructorGrows :: "errorBinding \<Rightarrow> bool" where
  "constructorGrows eb =
     (case eb of
        BuiltinError \<Rightarrow> True
      | ShadowedError construct \<Rightarrow> (\<forall>m st. grows st (snd (construct m st))))"

definition compiledGrows :: "compiled \<Rightarrow> bool" where
  "compiledGrows cmp =
     (case cmp of
        SyntaxError m \<Rightarrow> True
      | Compiled body \<Rightarrow>
          (\<forall>c st. grows st (snd (body c st)) \<and>
             (case fst (body c st) of
                Exits cmpl \<Rightarrow> True
              | Defines b \<Rightarrow> hookGrows (calculate b) \<and> hookGrows (render b)
                             \<and> constructorGrows (errorConstructor b))))"

definition respectsAllocator :: "engine \<Rightarrow> bool" where
  "respectsAllocator js = (\<forall>src. compiledGrows (js src))"

text \<open>
  The policy of the merger in the words of the specification: start from \<^verbatim>\<open>baseDate\<close>;
  of the results, taken in the order of the map, the last one that specifies an
  overriding date wins. A result specifies a date when its \<^verbatim>\<open>currentDate\<close> is truthy.
\<close>

definition dateOverrides :: "(string \<times> jsval) list \<Rightarrow> jsval list" where
  "dateOverrides results =
     filter truthy
       (map (\<lambda>(pluginId, r). case getProp r ''currentDate'' of Some d \<Rightarrow> d | None \<Rightarrow> JUndefined)
          results)"


text \<open>The data bag of a plugin: the truthy \<^verbatim>\<open>data\<close> of its calculation result, if any.\<close>

definition dataBag :: "(string \<times> jsval) list \<Rightarrow> string \<Rightarrow> jsval option" where
  "dataBag results pluginId =
     (case mapGet results pluginId of
        None \<Rightarrow> None
      | Some r \<Rightarrow>
          (case getProp r ''data'' of
             None \<Rightarrow> None
           | Some bag \<Rightarrow> if truthy bag then Some bag else None))"

text \<open>
  The text \<open>src\<close> contains the token \<open>tok\<close>, compared case-insensitively.
\<close>

fun containsCI :: "string \<Rightarrow> string \<Rightarrow> bool" where
  "containsCI [] tok = (tok = [])"
| "containsCI (c # cs) tok =
     (if map canonicalize (take (length tok) (c # cs)) = map canonicalize tok then True
      else containsCI cs tok)"

text \<open>
  The denylist as a table of tokens with their messages; \<^verbatim>\<open>import\<close> is followed by
  one whitespace character \<open>w\<close>.
\<close>

definition denylistTokens :: "char \<Rightarrow> (string \<times> string) list" where
  "denylistTokens w =
     [(''eval('', ''eval() is not allowed''),
      (''Function('', ''Function constructor is not allowed''),
      (''import'' @ [w], ''import statements are not allowed''),
      (''require('', ''require() is not allowed''),
      (''process.'', ''process access is not allowed''),
      (''global.'', ''global access is not allowed''),
      (''fetch('', ''fetch() is not allowed''),
      (''XMLHttpRequest'', ''XMLHttpRequest is not allowed''),
      (''__dirname'', ''__dirname is not allowed''),
      (''__filename'', ''__filename is not allowed'')]"

definition src_dynamicImport :: string where
  "src_dynamicImport = ''function calculate(context) { return import(context.settings.module); }''"

definition src_importStatement :: string where
  "src_importStatement = ''IMPORT fs from `fs`; function calculate(context) { return 1; }''"

definition src_noHooks :: string where
  "src_noHooks = ''var answer = 42;''"

text \<open>
  A denylist entry with message \<open>msg\<close> accepts the token \<open>tok\<close>: its pattern matches
  every text that starts with the token, in any letter case.
\<close>

definition accepts :: "string \<Rightarrow> string \<Rightarrow> bool" where
  "accepts tok msg =
     (\<exists>p. (p, msg) \<in> set dangerousPatterns \<and>
          (\<forall>m s. map canonicalize m = map canonicalize tok \<longrightarrow> matchHere p (m @ s)))"

section \<open>Evaluating the samples\<close>

lemmas sample_sources =
  src_onlyCalculate_def src_onlyRender_def src_busyLoop_def src_endlessLoop_def src_sleep_def
  src_setDate_def
  src_readDate_def src_number_def src_throwNull_def src_throwBoth_def src_topReturn_def
  src_topThrow_def src_notCallable_def src_calculateTotal_def src_dateA_def src_noDateB_def
  src_dateC_def src_shadowError_def src_globalRender_def src_emptyListBody_def
  src_renderThrows_def src_dataFive_def

lemmas sample_eval =
  executePluginCalculation_def executePluginRender_def executeHook_def resolve_def
  throwNewError_def callGlobal_def sampleEngine_def
  sample_sources declares_def declaring_def returning_def throwing_def raceWithTimeout_def catchHandler_def
  outcome_def returnsAt_def advance_def PLUGIN_TIMEOUT_MS_def propertyOfNullError_def

lemmas process_eval =
  processPlugins_def processPlugin_def calculationStep_def renderStep_def pluginContext_def
  alloc_def awaitThen_def
  recordCalculation_def recordRender_def definitionsOf_def sampleConfig_def sampleBase_def
  sampleStore_def base_context.defs

lemmas validate_eval =
  validatePluginCode_def validationErrors_def dangerousPatterns_def lit_def canonicalize_def
  isWhitespace_def

section \<open>Properties of the executors\<close>


lemma executeHook_invoked:
  assumes "js src = Compiled body" and "body c st = (Defines b, st1)"
    and "entry b = Function f" and "f c st1 = (cmpl, st2)"
  shows "executeHook name entry missing js src c st = raceWithTimeout cmpl st2"
  using assms by (simp add: executeHook_def resolve_def)


text \<open>
  A name that the plugin text leaves undeclared denotes the function of that name on the
  global object, if an earlier run has put one there: the executor calls it.
\<close>

lemma executeHook_global:
  assumes "js src = Compiled body" and "body c st = (Defines b, st1)"
    and "entry b = Unbound" and "globals st1 name = Some (GlobalFunction txt)"
    and "callGlobal js txt c st1 = (cmpl, st2)"
  shows "executeHook name entry missing js src c st = raceWithTimeout cmpl st2"
  using assms by (simp add: executeHook_def resolve_def)

text \<open>
  A thrown \<^verbatim>\<open>Error\<close> with a non-empty message is caught and reported with that message;
  a thrown value without a message is reported as \<^verbatim>\<open>Plugin execution failed\<close>.
\<close>

lemma catchHandler_Error:
  "catchHandler (JErr m) st =
     Fulfilled (\<lparr>result = JNull,
                 error = (if m = [] then JStr ''Plugin execution failed'' else JStr m)\<rparr>, st)"
  by (simp add: catchHandler_def)

lemma catchHandler_total:
  "e \<noteq> JNull \<Longrightarrow> e \<noteq> JUndefined \<Longrightarrow>
     \<exists>m. catchHandler e st = Fulfilled (\<lparr>result = JNull, error = m\<rparr>, st) \<and> truthy m"
  by (cases e) (auto simp: catchHandler_def split: option.splits)

text \<open>
  A hook that returns a promise which is still pending when the timer fires is reported
  as a timeout, and control returns \<open>PLUGIN_TIMEOUT_MS\<close> after the hook returned.
\<close>

lemma late_promise_times_out:
  assumes "js src = Compiled body" and "body c st = (Defines b, stA)"
    and "calculate b = Function f" and "f c stA = (ReturnsPromise d s, stB)"
    and "d = None \<or> (\<exists>ms. d = Some ms \<and> PLUGIN_TIMEOUT_MS < ms)"
  shows "executePluginCalculation js src c st =
           Fulfilled (\<lparr>result = JNull, error = JStr ''Plugin execution timeout''\<rparr>,
                      advance PLUGIN_TIMEOUT_MS stB)"
  using assms
  by (auto simp: executePluginCalculation_def executeHook_def resolve_def raceWithTimeout_def
                 catchHandler_def)

text \<open>The sample that sleeps for a second is cut off at the timeout.\<close>

lemma sleeping_plugin_times_out:
  "outcome (executePluginCalculation sampleEngine src_sleep 3 sampleStore)
     = Fulfilled \<lparr>result = JNull, error = JStr ''Plugin execution timeout''\<rparr>
   \<and> returnsAt (executePluginCalculation sampleEngine src_sleep 3 sampleStore) = Some 500"
  by (simp add: sample_eval sampleStore_def)

text \<open>A synchronous endless loop is never interrupted: the batch never returns.\<close>

lemma endless_loop_never_returns:
  "executePluginCalculation sampleEngine src_endlessLoop 3 sampleStore = Forever
   \<and> processPlugins sampleEngine [sampleConfig ''p''] (definitionsOf [(''p'', src_endlessLoop)])
       sampleBase sampleStore = Forever"
  by (simp add: sample_eval process_eval)

text \<open>
  C1. A plugin whose \<^verbatim>\<open>calculate\<close> runs beyond the 500 ms deadline is reported as a
  timeout at about the deadline. The code does this for a hook that returns a pending
  promise (\<open>late_promise_times_out\<close>), but not for a hook that loops synchronously: the
  sample \<open>src_busyLoop\<close> spins for 600 ms and then returns, and the executor hands back
  the plugin's own result, at 600 ms.
\<close>

theorem C1_busy_loop_is_not_timed_out:
  "outcome (executePluginCalculation sampleEngine src_busyLoop 3 sampleStore)
     = Fulfilled \<lparr>result = JObj [(''data'', JObj [(''done'', JBool True)])], error = JNull\<rparr>
   \<and> returnsAt (executePluginCalculation sampleEngine src_busyLoop 3 sampleStore) = Some 600"
  by (simp add: sample_eval sampleStore_def)




text \<open>
  A value thrown by a hook, other than \<^verbatim>\<open>null\<close> and \<^verbatim>\<open>undefined\<close>, ends in a failure
  outcome, which carries the message of a thrown \<^verbatim>\<open>Error\<close> when it is not empty.
\<close>

lemma thrown_value_is_caught:
  assumes "js src = Compiled body" and "body c st = (Defines b, stA)"
    and "calculate b = Function f" and "f c stA = (Throws e, stB)"
    and "e \<noteq> JNull" and "e \<noteq> JUndefined"
  shows "\<exists>m. executePluginCalculation js src c st = Fulfilled (\<lparr>result = JNull, error = m\<rparr>, stB)
             \<and> truthy m \<and> (\<forall>msg. e = JErr msg \<and> msg \<noteq> [] \<longrightarrow> m = JStr msg)"
proof -
  from catchHandler_total[OF assms(5,6), of stB] obtain m
    where m: "catchHandler e stB = Fulfilled (\<lparr>result = JNull, error = m\<rparr>, stB)" "truthy m"
    by blast
  have run: "executePluginCalculation js src c st = catchHandler e stB"
    using assms(1-4)
    by (simp add: executePluginCalculation_def executeHook_invoked raceWithTimeout_def)
  have "\<forall>msg. e = JErr msg \<and> msg \<noteq> [] \<longrightarrow> m = JStr msg"
    using m(1) by (auto simp: catchHandler_Error)
  with m run show ?thesis by auto
qed

text \<open>
  C6. An error thrown by plugin code is caught and turned into a failure outcome; nothing
  propagates to \<^verbatim>\<open>processPlugins\<close>. The \<^verbatim>\<open>catch\<close> block does this for every thrown
  value except \<^verbatim>\<open>null\<close> and \<^verbatim>\<open>undefined\<close> (\<open>catchHandler_total\<close>). For those, reading
  \<^verbatim>\<open>error.message\<close> throws inside the handler: the executor's promise is rejected, and
  so is that of \<^verbatim>\<open>processPlugins\<close>, which awaits it without a handler.
\<close>

theorem C6_thrown_null_propagates:
  "executePluginCalculation sampleEngine src_throwNull 3 sampleStore
     = RejectedWith propertyOfNullError
   \<and> processPlugins sampleEngine [sampleConfig ''p''] (definitionsOf [(''p'', src_throwNull)])
       sampleBase sampleStore
     = RejectedWith propertyOfNullError"
  by (simp add: sample_eval process_eval)




section \<open>Properties of the orchestrator\<close>

lemma awaitThen_Fulfilled [simp]: "awaitThen (Fulfilled x) k = k x"
  and awaitThen_RejectedWith [simp]: "awaitThen (RejectedWith e) k = RejectedWith e"
  and awaitThen_Forever [simp]: "awaitThen Forever k = Forever"
  by (simp_all add: awaitThen_def)

lemma awaitThen_eq_Fulfilled:
  "awaitThen p k = Fulfilled y \<longleftrightarrow> (\<exists>x. p = Fulfilled x \<and> k x = Fulfilled y)"
  by (cases p) simp_all

lemma processLoop_append:
  "processLoop js defs base (xs @ ys) s =
     awaitThen (processLoop js defs base xs s) (processLoop js defs base ys)"
proof (induction xs arbitrary: s)
  case Nil
  then show ?case by simp
next
  case (Cons x xs)
  then show ?case
    by (cases "processPlugin js defs base x s") simp_all
qed








lemma calculationStep_Fulfilled:
  "calculationStep js pid src c (acc, st) = Fulfilled (acc', st') \<longleftrightarrow>
     (\<exists>r. executePluginCalculation js src c st = Fulfilled (r, st')
          \<and> acc' = recordCalculation pid r acc)"
  by (auto simp: calculationStep_def awaitThen_eq_Fulfilled)

lemma renderStep_Fulfilled:
  "renderStep js pid src c (acc, st) = Fulfilled (acc', st') \<longleftrightarrow>
     (\<exists>r. executePluginRender js src c st = Fulfilled (r, st')
          \<and> acc' = recordRender pid r acc)"
  by (auto simp: renderStep_def awaitThen_eq_Fulfilled)

lemma processPlugin_ran:
  assumes "enabled cfg" and "defs (id' cfg) = Some d" and "pluginContext base cfg st = (c, stI)"
  shows "processPlugin js defs base cfg (acc, st) =
           awaitThen (calculationStep js (id' cfg) (code d) c (acc, stI))
             (renderStep js (id' cfg) (code d) c)"
  using assms by (simp add: processPlugin_def)

lemma processPlugin_cases:
  assumes "processPlugin js defs base cfg (acc, st) = Fulfilled (acc', st')"
  obtains (skipped) "\<not> enabled cfg" "acc' = acc" "st' = st"
  | (unknown) "enabled cfg" "defs (id' cfg) = None" "st' = st"
      "acc' = acc\<lparr>process_result.errors :=
                 mapSet (id' cfg) (JStr ''Plugin definition not found'') (process_result.errors acc)\<rparr>"
  | (ran) d c stI r1 stA r2 where "enabled cfg" "defs (id' cfg) = Some d"
      "pluginContext base cfg st = (c, stI)"
      "executePluginCalculation js (code d) c stI = Fulfilled (r1, stA)"
      "executePluginRender js (code d) c stA = Fulfilled (r2, st')"
      "acc' = recordRender (id' cfg) r2 (recordCalculation (id' cfg) r1 acc)"
proof (cases "enabled cfg")
  case False
  with assms skipped show ?thesis by (simp add: processPlugin_def)
next
  case en: True
  show ?thesis
  proof (cases "defs (id' cfg)")
    case None
    with assms en unknown show ?thesis by (simp add: processPlugin_def)
  next
    case (Some d)
    obtain c stI where ctx: "pluginContext base cfg st = (c, stI)"
      by (cases "pluginContext base cfg st")
    from assms processPlugin_ran[where defs = defs and js = js and acc = acc, OF en Some ctx]
    have "awaitThen (calculationStep js (id' cfg) (code d) c (acc, stI))
            (renderStep js (id' cfg) (code d) c) = Fulfilled (acc', st')"
      by simp
    then obtain a1 stA where
      calc: "calculationStep js (id' cfg) (code d) c (acc, stI) = Fulfilled (a1, stA)"
      and rend: "renderStep js (id' cfg) (code d) c (a1, stA) = Fulfilled (acc', st')"
      by (auto simp: awaitThen_eq_Fulfilled)
    from calc obtain r1 where
      c1: "executePluginCalculation js (code d) c stI = Fulfilled (r1, stA)"
      and a1: "a1 = recordCalculation (id' cfg) r1 acc"
      by (auto simp: calculationStep_Fulfilled)
    from rend obtain r2 where
      c2: "executePluginRender js (code d) c stA = Fulfilled (r2, st')"
      and a2: "acc' = recordRender (id' cfg) r2 a1"
      by (auto simp: renderStep_Fulfilled)
    from en Some ctx c1 c2 a1 a2 ran show ?thesis by blast
  qed
qed




lemma processLoop_split:
  assumes "processLoop js defs base (pre @ cfg # post) s = Fulfilled (res, stF)"
  obtains acc st acc' st' where "processLoop js defs base pre s = Fulfilled (acc, st)"
    and "processPlugin js defs base cfg (acc, st) = Fulfilled (acc', st')"
    and "processLoop js defs base post (acc', st') = Fulfilled (res, stF)"
proof -
  from assms obtain x where 1: "processLoop js defs base pre s = Fulfilled x"
    and 2: "processLoop js defs base (cfg # post) x = Fulfilled (res, stF)"
    by (auto simp: processLoop_append awaitThen_eq_Fulfilled)
  from 2 obtain y where 3: "processPlugin js defs base cfg x = Fulfilled y"
    and 4: "processLoop js defs base post y = Fulfilled (res, stF)"
    by (auto simp: awaitThen_eq_Fulfilled)
  show ?thesis using that[of "fst x" "snd x" "fst y" "snd y"] 1 3 4 by simp
qed






section \<open>When a batch is processed to the end\<close>

text \<open>
  An executor returns an outcome unless the plugin never returns, or throws \<^verbatim>\<open>null\<close> or
  \<^verbatim>\<open>undefined\<close>.
\<close>

lemma catchHandler_returns:
  "e \<noteq> JNull \<Longrightarrow> e \<noteq> JUndefined \<Longrightarrow> \<exists>r. catchHandler e st = Fulfilled (r, st)"
  by (cases e) (simp_all add: catchHandler_def)

lemma raceWithTimeout_returns:
  assumes "wellBehaved c"
  shows "\<exists>r st'. raceWithTimeout c st = Fulfilled (r, st')"
proof (cases c)
  case (Returns v)
  then show ?thesis by (simp add: raceWithTimeout_def)
next
  case (ReturnsPromise d s)
  show ?thesis
  proof (cases d)
    case None
    with ReturnsPromise show ?thesis by (simp add: raceWithTimeout_def catchHandler_def)
  next
    case (Some ms)
    show ?thesis
    proof (cases "ms \<le> PLUGIN_TIMEOUT_MS")
      case False
      with ReturnsPromise Some show ?thesis by (simp add: raceWithTimeout_def catchHandler_def)
    next
      case True
      show ?thesis
      proof (cases s)
        case (Fulfils v)
        with ReturnsPromise Some True show ?thesis by (simp add: raceWithTimeout_def)
      next
        case (Rejects e)
        with assms ReturnsPromise Some True have "e \<noteq> JNull" "e \<noteq> JUndefined"
          by (simp_all add: wellBehaved_def)
        from catchHandler_returns[OF this] ReturnsPromise Some True Rejects show ?thesis
          by (simp add: raceWithTimeout_def) blast
      qed
    qed
  qed
next
  case (Throws e)
  with assms have "e \<noteq> JNull" "e \<noteq> JUndefined" by (simp_all add: wellBehaved_def)
  from catchHandler_returns[OF this] Throws show ?thesis
    by (simp add: raceWithTimeout_def) blast
next
  case Diverges
  with assms show ?thesis by (simp add: wellBehaved_def)
qed

lemma callGlobal_wellBehaved:
  assumes "tameEngine js"
  shows "wellBehaved (fst (callGlobal js gtext c st))"
proof (cases "js gtext")
  case (SyntaxError m)
  then show ?thesis by (simp add: callGlobal_def wellBehaved_def)
next
  case (Compiled body)
  from assms have "tameSource js gtext" by (simp add: tameEngine_def)
  with Compiled have "case fst (body c st) of
                    Exits cmpl \<Rightarrow> wellBehaved cmpl
                  | Defines b \<Rightarrow> tameHook (calculate b) \<and> tameHook (render b)
                                 \<and> tameConstructor (errorConstructor b)"
    by (simp add: tameSource_def)
  moreover have "wellBehaved (Returns JUndefined)" by (simp add: wellBehaved_def)
  ultimately show ?thesis using Compiled
    by (cases "body c st") (auto simp: callGlobal_def split: toplevel.splits)
qed

lemma throwNewError_returns:
  assumes "tameConstructor eb"
  shows "\<exists>r st'. throwNewError eb missing st = Fulfilled (r, st')"
proof (cases eb)
  case BuiltinError
  then show ?thesis by (simp add: throwNewError_def catchHandler_def)
next
  case (ShadowedError construct)
  obtain cmpl st1 where k: "construct missing st = (cmpl, st1)" by (cases "construct missing st")
  from assms ShadowedError have ok: "case fst (construct missing st) of
                    Returns v \<Rightarrow> v \<noteq> JNull \<and> v \<noteq> JUndefined
                  | ReturnsPromise d s \<Rightarrow> True
                  | Throws e \<Rightarrow> e \<noteq> JNull \<and> e \<noteq> JUndefined
                  | Diverges \<Rightarrow> False"
    by (simp add: tameConstructor_def)
  show ?thesis
  proof (cases cmpl)
    case (Returns v)
    with ok k have "v \<noteq> JNull" "v \<noteq> JUndefined" by simp_all
    from catchHandler_returns[OF this, of st1] obtain r
      where "catchHandler v st1 = Fulfilled (r, st1)" ..
    with ShadowedError k Returns show ?thesis by (simp add: throwNewError_def)
  next
    case (ReturnsPromise d s)
    with ShadowedError k show ?thesis by (simp add: throwNewError_def catchHandler_def)
  next
    case (Throws e)
    with ok k have "e \<noteq> JNull" "e \<noteq> JUndefined" by simp_all
    from catchHandler_returns[OF this, of st1] obtain r
      where "catchHandler e st1 = Fulfilled (r, st1)" ..
    with ShadowedError k Throws show ?thesis by (simp add: throwNewError_def)
  next
    case Diverges
    with ok k show ?thesis by simp
  qed
qed

lemma executeHook_returns:
  assumes tame: "tameEngine js" and entry: "entry = calculate \<or> entry = render"
  shows "\<exists>r st'. executeHook name entry missing js src c st = Fulfilled (r, st')"
proof (cases "js src")
  case (SyntaxError m)
  then show ?thesis by (simp add: executeHook_def catchHandler_def)
next
  case (Compiled body)
  obtain t stA where run: "body c st = (t, stA)" by (cases "body c st")
  from tame have "tameSource js src" by (simp add: tameEngine_def)
  with Compiled have top: "case fst (body c st) of
                    Exits cmpl \<Rightarrow> wellBehaved cmpl
                  | Defines b \<Rightarrow> tameHook (calculate b) \<and> tameHook (render b)
                                 \<and> tameConstructor (errorConstructor b)"
    by (simp add: tameSource_def)
  show ?thesis
  proof (cases t)
    case (Exits cmpl)
    with top run have "wellBehaved cmpl" by simp
    from raceWithTimeout_returns[OF this] Compiled run Exits show ?thesis
      by (simp add: executeHook_def)
  next
    case (Defines b)
    with top run entry have tameEntry: "tameHook (entry b)"
      and tameError: "tameConstructor (errorConstructor b)" by auto
    show ?thesis
    proof (cases "resolve js name (entry b) stA")
      case Unbound
      with throwNewError_returns[OF tameError] Compiled run Defines show ?thesis
        by (simp add: executeHook_def)
    next
      case (NotFunction v)
      with throwNewError_returns[OF tameError] Compiled run Defines show ?thesis
        by (simp add: executeHook_def)
    next
      case (Function f)
      obtain cmpl stB where call: "f c stA = (cmpl, stB)" by (cases "f c stA")
      have "wellBehaved (fst (f c stA))"
      proof (cases "entry b")
        case Unbound
        with Function obtain gtext where "f = callGlobal js gtext"
          by (auto simp: resolve_def split: option.splits global.splits)
        with tame show ?thesis by (simp add: callGlobal_wellBehaved)
      next
        case (NotFunction v)
        with Function show ?thesis by (simp add: resolve_def)
      next
        case F: (Function g)
        with Function have "f = g" by (simp add: resolve_def)
        with tameEntry F show ?thesis by (simp add: tameHook_def)
      qed
      with call have "wellBehaved cmpl" by simp
      from raceWithTimeout_returns[OF this] Compiled run Defines Function call show ?thesis
        by (simp add: executeHook_def)
    qed
  qed
qed

lemma processPlugin_returns:
  assumes tame: "tameEngine js"
  shows "\<exists>acc' st'. processPlugin js defs base cfg (acc, st) = Fulfilled (acc', st')"
proof (cases "enabled cfg")
  case False
  then show ?thesis by (simp add: processPlugin_def)
next
  case en: True
  show ?thesis
  proof (cases "defs (id' cfg)")
    case None
    with en show ?thesis by (simp add: processPlugin_def)
  next
    case (Some d)
    obtain c stI where ctx: "pluginContext base cfg st = (c, stI)"
      by (cases "pluginContext base cfg st")
    from executeHook_returns[OF tame, of calculate] obtain r1 stA
      where calc: "executePluginCalculation js (code d) c stI = Fulfilled (r1, stA)"
      unfolding executePluginCalculation_def by blast
    from executeHook_returns[OF tame, of render] obtain r2 stB
      where rend: "executePluginRender js (code d) c stA = Fulfilled (r2, stB)"
      unfolding executePluginRender_def by blast
    from en Some ctx calc rend show ?thesis
      by (simp add: processPlugin_def calculationStep_def renderStep_def)
  qed
qed

lemma processLoop_returns:
  assumes "tameEngine js"
  shows "\<exists>res stF. processLoop js defs base ps s = Fulfilled (res, stF)"
proof (induction ps arbitrary: s)
  case Nil
  then show ?case by (cases s) simp
next
  case (Cons p ps)
  obtain acc st where s: "s = (acc, st)" by (cases s)
  from processPlugin_returns[OF assms, of defs base p acc st] obtain acc' st'
    where step: "processPlugin js defs base p (acc, st) = Fulfilled (acc', st')" by blast
  from Cons.IH[of "(acc', st')"] step s show ?case by simp
qed

text \<open>
  With an engine all of whose code is well behaved, every batch is processed to the end.
\<close>

lemma processPlugins_returns:
  assumes "tameEngine js"
  shows "\<exists>res stF. processPlugins js plugins defs base st = Fulfilled (res, stF)"
  unfolding processPlugins_def using assms by (rule processLoop_returns)

section \<open>The context of a plugin\<close>


lemma createPluginContext_fresh:
  assumes "createPluginContext toLocale birth w h mode settingsObj timezone st = (c, st')"
  shows "\<exists>cx. heap st' c = Some (HContext cx)
            \<and> nextAddr st \<le> base_context.currentDate cx \<and> nextAddr st \<le> utils cx
            \<and> base_context.currentDate cx \<noteq> utils cx
            \<and> plugin_context.settings cx = settingsObj"
  using assms
  by (auto simp: createPluginContext_def alloc_def split: option.splits if_splits)

text \<open>
  The spread \<^verbatim>\<open>{...baseContext, settings: pluginConfig.settings}\<close> allocates one object,
  at the next address, and copies the references of \<^verbatim>\<open>baseContext\<close> into it.
\<close>

lemma pluginContext_alloc:
  assumes "pluginContext base cfg st = (c, stA)"
  shows "c = nextAddr st" and "nextAddr stA = Suc (nextAddr st)"
    and "heap stA c = Some (HContext
              \<lparr>base_context.currentDate = base_context.currentDate base,
                birthDate = birthDate base, width = width base, height = height base,
                viewMode = viewMode base, utils = utils base,
                plugin_context.settings = pluginConfig.settings cfg\<rparr>)"
    and "\<forall>a. a \<noteq> c \<longrightarrow> heap stA a = heap st a"
  using assms by (auto simp: pluginContext_def alloc_def base_context.defs)

lemma pluginContext_allocated:
  assumes "pluginContext base cfg st = (c, stA)" and "allocated st"
  shows "heap st c = None" and "allocated stA"
  using assms by (auto simp: pluginContext_def alloc_def allocated_def)

text \<open>Code that respects the allocator keeps the store allocated through a whole batch.\<close>

lemma catchHandler_store: "catchHandler e st = Fulfilled (r, st') \<Longrightarrow> st' = st"
  by (auto simp: catchHandler_def split: option.splits)

lemma advance_allocated [simp]:
  "allocated (advance ms st) = allocated st" "nextAddr (advance ms st) = nextAddr st"
  by (simp_all add: advance_def allocated_def)

lemma raceWithTimeout_store:
  assumes "raceWithTimeout cmpl st = Fulfilled (r, st')"
  shows "allocated st' = allocated st \<and> nextAddr st' = nextAddr st"
  using assms
  by (auto simp: raceWithTimeout_def dest!: catchHandler_store
           split: completion.splits option.splits settle.splits if_splits)

lemma growsD: "grows st st' \<Longrightarrow> allocated st \<Longrightarrow> allocated st' \<and> nextAddr st \<le> nextAddr st'"
  by (simp add: grows_def)

lemma callGlobal_grows:
  assumes "respectsAllocator js"
  shows "grows st (snd (callGlobal js gtext c st))"
proof (cases "js gtext")
  case (SyntaxError m)
  then show ?thesis by (simp add: callGlobal_def grows_def)
next
  case (Compiled body)
  with assms have "grows st (snd (body c st))"
    by (auto simp: respectsAllocator_def compiledGrows_def dest!: spec[of _ gtext])
  with Compiled show ?thesis
    by (cases "body c st") (auto simp: callGlobal_def split: toplevel.splits)
qed

lemma throwNewError_grows:
  assumes "constructorGrows eb" and "throwNewError eb missing st = Fulfilled (r, st')"
    and "allocated st"
  shows "allocated st' \<and> nextAddr st \<le> nextAddr st'"
proof (cases eb)
  case BuiltinError
  with assms show ?thesis by (auto simp: throwNewError_def dest!: catchHandler_store)
next
  case (ShadowedError construct)
  obtain cmpl st1 where k: "construct missing st = (cmpl, st1)" by (cases "construct missing st")
  from assms(1) ShadowedError have "grows st (snd (construct missing st))"
    by (simp add: constructorGrows_def)
  with k assms(3) have g: "allocated st1 \<and> nextAddr st \<le> nextAddr st1" by (simp add: grows_def)
  from assms(2) ShadowedError k have "st' = st1"
    by (auto simp: throwNewError_def dest!: catchHandler_store split: completion.splits)
  with g show ?thesis by simp
qed

lemma executeHook_grows:
  assumes eng: "respectsAllocator js"
    and run: "executeHook name entry missing js src c st = Fulfilled (r, st')"
    and entry: "entry = calculate \<or> entry = render"
    and al: "allocated st"
  shows "allocated st' \<and> nextAddr st \<le> nextAddr st'"
proof (cases "js src")
  case (SyntaxError m)
  with run al show ?thesis by (auto simp: executeHook_def dest!: catchHandler_store)
next
  case (Compiled body)
  obtain t st1 where top: "body c st = (t, st1)" by (cases "body c st")
  from eng Compiled have props: "grows st (snd (body c st))"
    "case fst (body c st) of Exits cmpl \<Rightarrow> True
     | Defines b \<Rightarrow> hookGrows (calculate b) \<and> hookGrows (render b)
                    \<and> constructorGrows (errorConstructor b)"
    by (auto simp: respectsAllocator_def compiledGrows_def dest!: spec[of _ src])
  from props(1) top al have g1: "allocated st1" "nextAddr st \<le> nextAddr st1"
    by (simp_all add: grows_def)
  show ?thesis
  proof (cases t)
    case (Exits cmpl)
    with run Compiled top have "raceWithTimeout cmpl st1 = Fulfilled (r, st')"
      by (simp add: executeHook_def)
    from raceWithTimeout_store[OF this] g1 show ?thesis by simp
  next
    case (Defines b)
    with props(2) top entry have hb: "hookGrows (entry b)" "constructorGrows (errorConstructor b)"
      by auto
    show ?thesis
    proof (cases "resolve js name (entry b) st1")
      case (Function f)
      have "grows st1 (snd (f c st1))"
      proof (cases "entry b")
        case Unbound
        with Function obtain gtext where "f = callGlobal js gtext"
          by (auto simp: resolve_def split: option.splits global.splits)
        with eng show ?thesis by (simp add: callGlobal_grows)
      next
        case (NotFunction v)
        with Function show ?thesis by (simp add: resolve_def)
      next
        case F: (Function g)
        with Function have "f = g" by (simp add: resolve_def)
        with hb(1) F show ?thesis by (simp add: hookGrows_def)
      qed
      moreover obtain cmpl st2 where call: "f c st1 = (cmpl, st2)" by (cases "f c st1")
      ultimately have g2: "allocated st2" "nextAddr st1 \<le> nextAddr st2"
        using g1(1) by (simp_all add: grows_def)
      from run Compiled top Defines Function call
      have "raceWithTimeout cmpl st2 = Fulfilled (r, st')" by (simp add: executeHook_def)
      from raceWithTimeout_store[OF this] g1 g2 show ?thesis by simp
    next
      case Unbound
      with run Compiled top Defines
      have "throwNewError (errorConstructor b) missing st1 = Fulfilled (r, st')"
        by (simp add: executeHook_def)
      from throwNewError_grows[OF hb(2) this g1(1)] g1(2) show ?thesis by simp
    next
      case (NotFunction v)
      with run Compiled top Defines
      have "throwNewError (errorConstructor b) missing st1 = Fulfilled (r, st')"
        by (simp add: executeHook_def)
      from throwNewError_grows[OF hb(2) this g1(1)] g1(2) show ?thesis by simp
    qed
  qed
qed

lemma processPlugin_grows:
  assumes eng: "respectsAllocator js"
    and step: "processPlugin js defs base cfg (acc, st) = Fulfilled (acc', st')"
    and al: "allocated st"
  shows "allocated st' \<and> nextAddr st \<le> nextAddr st'"
  using step
proof (cases rule: processPlugin_cases)
  case skipped
  with al show ?thesis by simp
next
  case unknown
  with al show ?thesis by simp
next
  case (ran d c stI r1 stA r2)
  from pluginContext_alloc(2)[OF ran(3)] pluginContext_allocated(2)[OF ran(3) al]
  have 0: "allocated stI" "nextAddr st \<le> nextAddr stI" by simp_all
  from executeHook_grows[OF eng ran(4)[unfolded executePluginCalculation_def] _ 0(1)]
  have 1: "allocated stA" "nextAddr stI \<le> nextAddr stA" by simp_all
  from executeHook_grows[OF eng ran(5)[unfolded executePluginRender_def] _ 1(1)]
  have 2: "allocated st'" "nextAddr stA \<le> nextAddr st'" by simp_all
  from 0 1 2 show ?thesis by simp
qed

lemma processLoop_grows:
  assumes eng: "respectsAllocator js"
    and run: "processLoop js defs base ps (acc, st) = Fulfilled (res, stF)"
    and al: "allocated st"
  shows "allocated stF \<and> nextAddr st \<le> nextAddr stF"
  using run al
proof (induction ps arbitrary: acc st)
  case Nil
  then show ?case by simp
next
  case (Cons p ps)
  from Cons.prems(1) obtain a1 s1
    where step: "processPlugin js defs base p (acc, st) = Fulfilled (a1, s1)"
      and rest: "processLoop js defs base ps (a1, s1) = Fulfilled (res, stF)"
    by (auto simp: awaitThen_eq_Fulfilled)
  from processPlugin_grows[OF eng step Cons.prems(2)]
  have 1: "allocated s1" "nextAddr st \<le> nextAddr s1" by simp_all
  from Cons.IH[OF rest 1(1)] 1(2) show ?case by simp
qed

text \<open>The hand-evaluated samples respect the allocator.\<close>

lemma compiledGrows_if: "compiledGrows a \<Longrightarrow> compiledGrows b \<Longrightarrow> compiledGrows (if c then a else b)"
  by simp

lemma compiledGrows_declares:
  "hookGrows c \<Longrightarrow> hookGrows r \<Longrightarrow> compiledGrows (declares c r)"
  by (simp add: compiledGrows_def declares_def declaring_def grows_def constructorGrows_def)

lemma compiledGrows_exits: "compiledGrows (Compiled (\<lambda>context st. (Exits cmpl, st)))"
  by (simp add: compiledGrows_def grows_def)

lemma hookGrows_samples:
  "hookGrows Unbound" "hookGrows (NotFunction v)"
  "hookGrows (Function (returning v))" "hookGrows (Function (throwing e))"
  "hookGrows (Function setDateHook)" "hookGrows (Function readDateHook)"
  "hookGrows (Function (\<lambda>context st. (cmpl, advance ms st)))"
  "hookGrows (Function (\<lambda>context st. (cmpl, st)))"
  "hookGrows (Function (\<lambda>context st. (cmpl, st\<lparr>globals := g st\<rparr>)))"
  by (auto simp: hookGrows_def grows_def returning_def throwing_def setDateHook_def
                 readDateHook_def allocated_def advance_def
           split: option.splits hobj.splits)

lemma sampleEngine_respectsAllocator: "respectsAllocator sampleEngine"
  unfolding respectsAllocator_def
proof
  fix src
  have shadow: "compiledGrows (Compiled (\<lambda>context st.
          (Defines \<lparr>calculate = Unbound, render = Function (returning (JArr [])),
                     errorConstructor =
                       ShadowedError (\<lambda>m st. (Returns (JObj [(''message'', JStr ''pwned'')]), st))\<rparr>,
           st)))"
    by (simp add: compiledGrows_def grows_def constructorGrows_def hookGrows_samples)
  have syn: "compiledGrows (SyntaxError ''Unexpected token'')"
    by (simp add: compiledGrows_def)
  show "compiledGrows (sampleEngine src)"
    unfolding sampleEngine_def
    by (intro compiledGrows_if compiledGrows_declares compiledGrows_exits hookGrows_samples
              shadow syn)
qed

text \<open>
  C2. In a batch, \<^verbatim>\<open>processPlugins\<close> builds for every enabled plugin with a definition one
  new context object, at an address that was free and that no earlier iteration has
  used, and runs both hooks of the plugin with it. The object is a shallow copy: its
  \<^verbatim>\<open>currentDate\<close> and \<^verbatim>\<open>utils\<close> fields hold the references of \<^verbatim>\<open>baseContext\<close>, the same
  for every plugin of the batch, and its \<^verbatim>\<open>settings\<close> field holds the reference of
  \<^verbatim>\<open>pluginConfig.settings\<close>. Nothing else is allocated or copied. Stated for any two
  plugins \<open>cfg\<close> and \<open>cfg'\<close> of a batch that starts in an allocated store and returns.
\<close>

theorem C2_context_is_a_shallow_copy:
  assumes eng: "respectsAllocator js" and init: "allocated stI"
    and run: "processPlugins js (pre @ cfg # mid @ cfg' # post) defs base stI
                = Fulfilled (res, stF)"
    and en: "enabled cfg" and def: "defs (id' cfg) = Some d"
    and en': "enabled cfg'" and def': "defs (id' cfg') = Some d'"
  shows "\<exists>acc st c stA r1 stB r2 stC acc' st' c' stA' r1' stB' r2' stC'.
           processPlugins js pre defs base stI = Fulfilled (acc, st)
         \<and> pluginContext base cfg st = (c, stA)
         \<and> heap st c = None
         \<and> heap stA c = Some (HContext
              \<lparr>base_context.currentDate = base_context.currentDate base,
                birthDate = birthDate base, width = width base, height = height base,
                viewMode = viewMode base, utils = utils base,
                plugin_context.settings = pluginConfig.settings cfg\<rparr>)
         \<and> (\<forall>a. a \<noteq> c \<longrightarrow> heap stA a = heap st a)
         \<and> executePluginCalculation js (code d) c stA = Fulfilled (r1, stB)
         \<and> executePluginRender js (code d) c stB = Fulfilled (r2, stC)
         \<and> processPlugins js (pre @ cfg # mid) defs base stI = Fulfilled (acc', st')
         \<and> pluginContext base cfg' st' = (c', stA')
         \<and> heap st' c' = None
         \<and> c < c'
         \<and> heap stA' c' = Some (HContext
              \<lparr>base_context.currentDate = base_context.currentDate base,
                birthDate = birthDate base, width = width base, height = height base,
                viewMode = viewMode base, utils = utils base,
                plugin_context.settings = pluginConfig.settings cfg'\<rparr>)
         \<and> (\<forall>a. a \<noteq> c' \<longrightarrow> heap stA' a = heap st' a)
         \<and> executePluginCalculation js (code d') c' stA' = Fulfilled (r1', stB')
         \<and> executePluginRender js (code d') c' stB' = Fulfilled (r2', stC')"
proof -
  let ?s0 = "(\<lparr>calculationResults = [], renderResults = [], process_result.errors = []\<rparr>, stI)"
  from run obtain acc st a1 s1 where
    l1: "processLoop js defs base pre ?s0 = Fulfilled (acc, st)"
    and l2: "processPlugin js defs base cfg (acc, st) = Fulfilled (a1, s1)"
    and l3: "processLoop js defs base (mid @ cfg' # post) (a1, s1) = Fulfilled (res, stF)"
    unfolding processPlugins_def by (rule processLoop_split)
  from l3 obtain acc' st' a2 s2 where
    m1: "processLoop js defs base mid (a1, s1) = Fulfilled (acc', st')"
    and m2: "processPlugin js defs base cfg' (acc', st') = Fulfilled (a2, s2)"
    and m3: "processLoop js defs base post (a2, s2) = Fulfilled (res, stF)"
    by (rule processLoop_split)
  have P1: "processPlugins js pre defs base stI = Fulfilled (acc, st)"
    using l1 by (simp add: processPlugins_def)
  have P2: "processPlugins js (pre @ cfg # mid) defs base stI = Fulfilled (acc', st')"
    using l1 l2 m1 by (simp add: processPlugins_def processLoop_append)
  from processLoop_grows[OF eng l1 init] have al: "allocated st" by simp
  from l2 obtain c stA r1 stB r2 where
    ctx: "pluginContext base cfg st = (c, stA)"
    and calc: "executePluginCalculation js (code d) c stA = Fulfilled (r1, stB)"
    and rend: "executePluginRender js (code d) c stB = Fulfilled (r2, s1)"
    using en def by (cases rule: processPlugin_cases) auto
  from processPlugin_grows[OF eng l2 al] have al1: "allocated s1" by simp
  have "nextAddr stA \<le> nextAddr s1"
  proof -
    from pluginContext_allocated(2)[OF ctx al] have a: "allocated stA" .
    from executeHook_grows[OF eng calc[unfolded executePluginCalculation_def] _ a]
    have b: "allocated stB" "nextAddr stA \<le> nextAddr stB" by simp_all
    from executeHook_grows[OF eng rend[unfolded executePluginRender_def] _ b(1)] b(2)
    show ?thesis by simp
  qed
  with pluginContext_alloc(1,2)[OF ctx] have lt1: "c < nextAddr s1" by simp
  from processLoop_grows[OF eng m1 al1] have al': "allocated st'" "nextAddr s1 \<le> nextAddr st'"
    by simp_all
  from m2 obtain c' stA' r1' stB' r2' where
    ctx': "pluginContext base cfg' st' = (c', stA')"
    and calc': "executePluginCalculation js (code d') c' stA' = Fulfilled (r1', stB')"
    and rend': "executePluginRender js (code d') c' stB' = Fulfilled (r2', s2)"
    using en' def' by (cases rule: processPlugin_cases) auto
  from pluginContext_alloc(1)[OF ctx'] lt1 al'(2) have lt: "c < c'" by simp
  note A = pluginContext_allocated(1)[OF ctx al] pluginContext_alloc(3,4)[OF ctx]
  note B = pluginContext_allocated(1)[OF ctx' al'(1)] pluginContext_alloc(3,4)[OF ctx']
  show ?thesis
    apply (rule exI[of _ acc], rule exI[of _ st], rule exI[of _ c], rule exI[of _ stA])
    apply (rule exI[of _ r1], rule exI[of _ stB], rule exI[of _ r2], rule exI[of _ s1])
    apply (rule exI[of _ acc'], rule exI[of _ st'], rule exI[of _ c'], rule exI[of _ stA'])
    apply (rule exI[of _ r1'], rule exI[of _ stB'], rule exI[of _ r2'], rule exI[of _ s2])
    apply (intro conjI P1 ctx A calc rend P2 ctx' B lt calc' rend')
    done
qed

theorem C2_witness:
  "\<exists>acc st c stA r1 stB r2 stC acc' st' c' stA' r1' stB' r2' stC'.
     processPlugins sampleEngine [] (definitionsOf [(''a'', src_setDate), (''b'', src_readDate)])
       sampleBase sampleStore = Fulfilled (acc, st)
   \<and> pluginContext sampleBase (sampleConfig ''a'') st = (c, stA)
   \<and> heap st c = None
   \<and> heap stA c = Some (HContext
        \<lparr>base_context.currentDate = 0, birthDate = ''1990-01-01'', width = 1170,
          height = 2532, viewMode = Year, utils = 1, plugin_context.settings = 2\<rparr>)
   \<and> (\<forall>a. a \<noteq> c \<longrightarrow> heap stA a = heap st a)
   \<and> executePluginCalculation sampleEngine src_setDate c stA = Fulfilled (r1, stB)
   \<and> executePluginRender sampleEngine src_setDate c stB = Fulfilled (r2, stC)
   \<and> processPlugins sampleEngine [sampleConfig ''a'']
       (definitionsOf [(''a'', src_setDate), (''b'', src_readDate)])
       sampleBase sampleStore = Fulfilled (acc', st')
   \<and> pluginContext sampleBase (sampleConfig ''b'') st' = (c', stA')
   \<and> heap st' c' = None
   \<and> c < c'
   \<and> heap stA' c' = Some (HContext
        \<lparr>base_context.currentDate = 0, birthDate = ''1990-01-01'', width = 1170,
          height = 2532, viewMode = Year, utils = 1, plugin_context.settings = 2\<rparr>)
   \<and> (\<forall>a. a \<noteq> c' \<longrightarrow> heap stA' a = heap st' a)
   \<and> executePluginCalculation sampleEngine src_readDate c' stA' = Fulfilled (r1', stB')
   \<and> executePluginRender sampleEngine src_readDate c' stB' = Fulfilled (r2', stC')"
proof -
  let ?defs = "definitionsOf [(''a'', src_setDate), (''b'', src_readDate)]"
  have init: "allocated sampleStore" by (simp add: allocated_def sampleStore_def)
  obtain res stF where run:
    "processPlugins sampleEngine ([] @ sampleConfig ''a'' # [] @ sampleConfig ''b'' # []) ?defs
       sampleBase sampleStore = Fulfilled (res, stF)"
    by (simp add: sample_eval process_eval setDateHook_def readDateHook_def)
  have en: "enabled (sampleConfig ''a'')" "enabled (sampleConfig ''b'')"
    by (simp_all add: sampleConfig_def)
  have defA: "?defs (id' (sampleConfig ''a'')) = Some \<lparr>code = src_setDate\<rparr>"
    by (simp add: definitionsOf_def sampleConfig_def)
  have defB: "?defs (id' (sampleConfig ''b'')) = Some \<lparr>code = src_readDate\<rparr>"
    by (simp add: definitionsOf_def sampleConfig_def)
  from C2_context_is_a_shallow_copy
         [where defs = ?defs, OF sampleEngine_respectsAllocator init run en(1) defA en(2) defB]
  show ?thesis by (simp add: sampleBase_def sampleConfig_def)
qed

text \<open>
  The contexts are not independent: the first plugin sets the time of the shared date
  object to 0, and the second plugin, which reports the time it reads from its own
  context, reports 0 instead of the 1000 it reports when it runs alone.
\<close>

theorem C2_counterexample:
  "outcome (processPlugins sampleEngine [sampleConfig ''a'', sampleConfig ''b'']
              (definitionsOf [(''a'', src_setDate), (''b'', src_readDate)]) sampleBase sampleStore)
     = Fulfilled \<lparr>calculationResults =
                    [(''a'', JObj [(''data'', JObj [(''n'', JNum 1)])]),
                     (''b'', JObj [(''data'', JObj [(''t'', JNum 0)])])],
                  renderResults = [],
                  process_result.errors =
                    [(''a'', JStr ''Plugin must export a render() function''),
                     (''b'', JStr ''Plugin must export a render() function'')]\<rparr>
   \<and> outcome (processPlugins sampleEngine [sampleConfig ''b'']
              (definitionsOf [(''a'', src_setDate), (''b'', src_readDate)]) sampleBase sampleStore)
     = Fulfilled \<lparr>calculationResults = [(''b'', JObj [(''data'', JObj [(''t'', JNum 1000)])])],
                  renderResults = [],
                  process_result.errors =
                    [(''b'', JStr ''Plugin must export a render() function'')]\<rparr>"
  by (simp add: sample_eval process_eval setDateHook_def readDateHook_def)


section \<open>Properties of the result merger\<close>

lemma getProp_truthy: "truthy r \<Longrightarrow> \<exists>v. getProp r k = Some v"
  by (cases r) simp_all









text \<open>
  The merger on such a map: the date is that of the last entry with a truthy
  \<^verbatim>\<open>currentDate\<close>, or the one it started from; every truthy data bag is an own property
  under its key, except under the key \<^verbatim>\<open>__proto__\<close>, which never becomes an own property.
\<close>

lemma dateOverrides_Cons:
  "getProp r ''currentDate'' = Some d \<Longrightarrow>
     dateOverrides ((k, r) # rest) = (if truthy d then [d] else []) @ dateOverrides rest"
  by (simp add: dateOverrides_def)

lemma dataBag_Cons:
  "getProp r ''data'' = Some bag \<Longrightarrow>
     dataBag ((k, r) # rest) pid =
       (if pid = k then (if truthy bag then Some bag else None) else dataBag rest pid)"
  by (simp add: dataBag_def mapGet_def)

lemma dataBag_absent: "k \<notin> set (map fst rest) \<Longrightarrow> dataBag rest k = None"
  by (simp add: dataBag_def mapGet_def map_of_eq_None_iff[THEN iffD2])

lemma mergeLoop_characterised:
  assumes "list_all (\<lambda>e. truthy (snd e)) results" and "distinct (map fst results)"
  shows "\<exists>m'. mergeLoop results m = Inr m'
           \<and> merged.currentDate m' = last (merged.currentDate m # dateOverrides results)
           \<and> (\<forall>pid. pluginData m' pid =
                 (if pid = ''__proto__'' then pluginData m pid
                  else case dataBag results pid of
                         None \<Rightarrow> pluginData m pid
                       | Some bag \<Rightarrow> Some bag))"
  using assms
proof (induction results arbitrary: m)
  case Nil
  then show ?case by (simp add: dateOverrides_def dataBag_def mapGet_def)
next
  case (Cons e rest)
  obtain k r where e: "e = (k, r)" by (cases e)
  from Cons.prems e have tr: "truthy r" and rest: "list_all (\<lambda>e. truthy (snd e)) rest"
    and fresh: "k \<notin> set (map fst rest)" and dist: "distinct (map fst rest)"
    by simp_all
  from getProp_truthy[OF tr] obtain d bag
    where d: "getProp r ''currentDate'' = Some d" and bag: "getProp r ''data'' = Some bag"
    by blast
  let ?m1 = "(if truthy bag then assignData k bag else (\<lambda>m. m))
               (if truthy d then m\<lparr>merged.currentDate := d\<rparr> else m)"
  have step: "mergeLoop (e # rest) m = mergeLoop rest ?m1"
    using e d bag by simp
  have date1: "merged.currentDate ?m1 = (if truthy d then d else merged.currentDate m)"
    by (simp add: assignData_def)
  from Cons.IH[OF rest dist, of ?m1] obtain m'
    where run: "mergeLoop rest ?m1 = Inr m'"
      and date: "merged.currentDate m' = last (merged.currentDate ?m1 # dateOverrides rest)"
      and data: "\<And>pid. pluginData m' pid =
                   (if pid = ''__proto__'' then pluginData ?m1 pid
                    else case dataBag rest pid of
                           None \<Rightarrow> pluginData ?m1 pid
                         | Some bag \<Rightarrow> Some bag)"
    by blast
  have "merged.currentDate m' = last (merged.currentDate m # dateOverrides (e # rest))"
    by (simp only: date date1 e dateOverrides_Cons[OF d]) simp
  moreover have "\<forall>pid. pluginData m' pid =
                 (if pid = ''__proto__'' then pluginData m pid
                  else case dataBag (e # rest) pid of
                         None \<Rightarrow> pluginData m pid
                       | Some bag \<Rightarrow> Some bag)"
  proof
    fix pid
    show "pluginData m' pid =
                 (if pid = ''__proto__'' then pluginData m pid
                  else case dataBag (e # rest) pid of
                         None \<Rightarrow> pluginData m pid
                       | Some bag \<Rightarrow> Some bag)"
    proof (cases "pid = k")
      case True
      with data[of k] dataBag_absent[OF fresh] show ?thesis
        by (simp add: e dataBag_Cons[OF bag] assignData_def split: option.splits)
    next
      case False
      with data[of pid] show ?thesis
        by (simp add: e dataBag_Cons[OF bag] assignData_def split: option.splits)
    qed
  qed
  ultimately show ?case using step run by simp
qed

text \<open>
  The scenario of three plugins: A and C override the date and B does not. Wherever B's
  result stands, C's date wins over A's, and the bags of A and C are kept under their
  ids.
\<close>

lemma three_plugin_scenario:
  assumes ids: "distinct [a, b, c]" "a \<noteq> ''__proto__''" "c \<noteq> ''__proto__''"
    and rA: "truthy rA" "getProp rA ''currentDate'' = Some dA" "truthy dA"
            "getProp rA ''data'' = Some bagA" "truthy bagA"
    and rB: "truthy rB" "getProp rB ''currentDate'' = Some dB" "\<not> truthy dB"
    and rC: "truthy rC" "getProp rC ''currentDate'' = Some dC" "truthy dC"
            "getProp rC ''data'' = Some bagC" "truthy bagC"
    and order: "results = [(a, rA), (b, rB), (c, rC)] \<or> results = [(a, rA), (c, rC), (b, rB)]
                \<or> results = [(b, rB), (a, rA), (c, rC)]"
  shows "\<exists>m. mergePluginResults baseDate results = Inr m \<and> merged.currentDate m = dC
            \<and> pluginData m a = Some bagA \<and> pluginData m c = Some bagC"
proof -
  let ?m0 = "\<lparr>merged.currentDate = baseDate, pluginData = Map.empty, pluginDataProto = None\<rparr>"
  have tr: "list_all (\<lambda>e. truthy (snd e)) results" and dist: "distinct (map fst results)"
    using order ids(1) rA(1) rB(1) rC(1) by auto
  from mergeLoop_characterised[OF tr dist, of ?m0] obtain m
    where run: "mergeLoop results ?m0 = Inr m"
      and date0: "merged.currentDate m = last (merged.currentDate ?m0 # dateOverrides results)"
      and data0: "\<forall>pid. pluginData m pid =
                   (if pid = ''__proto__'' then pluginData ?m0 pid
                    else case dataBag results pid of
                           None \<Rightarrow> pluginData ?m0 pid | Some bag \<Rightarrow> Some bag)"
    by blast
  from date0 have date: "merged.currentDate m = last (baseDate # dateOverrides results)"
    by simp
  from data0 have data: "\<And>pid. pluginData m pid =
                   (if pid = ''__proto__'' then None else dataBag results pid)"
    by (auto split: option.splits)
  have "last (baseDate # dateOverrides results) = dC"
    using order rA rB rC by (auto simp: dateOverrides_def)
  moreover have "dataBag results a = Some bagA" "dataBag results c = Some bagC"
    using order ids rA rC by (auto simp: dataBag_def mapGet_def)
  ultimately show ?thesis
    using run date data[of a] data[of c] ids(2,3) by (simp add: mergePluginResults_def)
qed



text \<open>
  When B is processed last, its result, which has no date, leaves C's date in place.
\<close>

lemma date_kept_after_last_override:
  "mergePluginResults (JDate 1000)
     [(''a'', JObj [(''currentDate'', JDate 100), (''data'', JObj [(''a'', JNum 1)])]),
      (''c'', JObj [(''currentDate'', JDate 200), (''data'', JObj [(''c'', JNum 3)])]),
      (''b'', JObj [(''data'', JObj [(''b'', JNum 2)])])]
   = Inr \<lparr>merged.currentDate = JDate 200,
          pluginData = [''a'' \<mapsto> JObj [(''a'', JNum 1)], ''c'' \<mapsto> JObj [(''c'', JNum 3)],
                        ''b'' \<mapsto> JObj [(''b'', JNum 2)]],
          pluginDataProto = None\<rparr>"
  by (simp add: mergePluginResults_def assignData_def)


section \<open>Plugins with a single entry point\<close>






section \<open>Properties of the validator\<close>

lemma regexTest_here: "matchHere p s \<Longrightarrow> regexTest p s"
  by (cases s) simp_all

lemma regexTest_append: "matchHere p s \<Longrightarrow> regexTest p (pre @ s)"
  by (induction pre) (simp_all add: regexTest_here)

lemma matchHere_lit:
  "map canonicalize m = map canonicalize t \<Longrightarrow> matchHere (lit t @ r) (m @ s) = matchHere r s"
proof (induction t arbitrary: m)
  case Nil
  then show ?case by (simp add: lit_def)
next
  case (Cons p ps)
  then obtain c cs where m: "m = c # cs" "canonicalize c = canonicalize p"
    "map canonicalize cs = map canonicalize ps"
    by (cases m) auto
  with Cons.IH[of cs] show ?case by (simp add: lit_def)
qed

lemma matchHere_Star_skip: "matchHere r s \<Longrightarrow> matchHere (Star a # r) s"
  by (cases s) simp_all

lemma matchHere_Star_end: "matchHere [Star a] s"
  by (cases s) simp_all

lemma isWhitespace_canonicalize:
  assumes "isWhitespace w" and "canonicalize c = canonicalize w"
  shows "isWhitespace c"
proof -
  define n k where "n = (of_char c :: nat)" and "k = (of_char w :: nat)"
  have k: "k = 9 \<or> k = 10 \<or> k = 11 \<or> k = 12 \<or> k = 13 \<or> k = 32 \<or> k = 160"
    using assms(1) by (simp add: isWhitespace_def k_def)
  have cw: "canonicalize w = (if 97 \<le> k \<and> k \<le> 122 then k - 32 else k)"
    by (simp add: canonicalize_def Let_def k_def)
  have cc: "canonicalize c = (if 97 \<le> n \<and> n \<le> 122 then n - 32 else n)"
    by (simp add: canonicalize_def Let_def n_def)
  have "(if 97 \<le> n \<and> n \<le> 122 then n - 32 else n) = (if 97 \<le> k \<and> k \<le> 122 then k - 32 else k)"
    using assms(2) by (simp only: cw cc)
  with k have "n = k" by (auto split: if_splits)
  with k show ?thesis by (simp add: isWhitespace_def n_def[symmetric])
qed

text \<open>A pattern accepts a token: it matches every text that starts with the token in any case.\<close>

lemma accepts_literal:
  "map canonicalize m = map canonicalize t \<Longrightarrow> matchHere (lit t) (m @ s)"
  using matchHere_lit[of m t "[]" s] by simp

lemma accepts_call:
  assumes "map canonicalize m = map canonicalize (name @ ''('')"
  shows "matchHere (lit name @ [Star Whitespace] @ lit ''('') (m @ s)"
proof -
  from assms obtain m1 m2 where m: "m = m1 @ m2"
    and 1: "map canonicalize m1 = map canonicalize name"
    and 2: "map canonicalize m2 = map canonicalize ''(''"
    by (auto simp: map_eq_append_conv)
  have "matchHere (lit ''('') (m2 @ s)" using 2 by (rule accepts_literal)
  then have "matchHere (Star Whitespace # lit ''('') (m2 @ s)" by (rule matchHere_Star_skip)
  then show ?thesis using matchHere_lit[OF 1, of "[Star Whitespace] @ lit ''(''" "m2 @ s"] m by simp
qed

lemma accepts_import:
  assumes "isWhitespace w" and "map canonicalize m = map canonicalize (''import'' @ [w])"
  shows "matchHere (lit ''import'' @ [Plus Whitespace]) (m @ s)"
proof -
  from assms(2) obtain m1 c where m: "m = m1 @ [c]"
    and 1: "map canonicalize m1 = map canonicalize ''import''"
    and 2: "canonicalize c = canonicalize w"
    by (auto simp: map_eq_append_conv map_eq_Cons_conv)
  have "isWhitespace c" using assms(1) 2 by (rule isWhitespace_canonicalize)
  then have "matchHere [Plus Whitespace] (c # s)" by (simp add: matchHere_Star_end)
  then show ?thesis using matchHere_lit[OF 1, of "[Plus Whitespace]" "c # s"] m by simp
qed

lemma containsCI_decompose:
  "containsCI src tok \<Longrightarrow> \<exists>pre m post. src = pre @ m @ post \<and> map canonicalize m = map canonicalize tok"
proof (induction src)
  case Nil
  then show ?case by simp
next
  case (Cons c cs)
  show ?case
  proof (cases "map canonicalize (take (length tok) (c # cs)) = map canonicalize tok")
    case True
    have "c # cs = [] @ take (length tok) (c # cs) @ drop (length tok) (c # cs)" by simp
    with True show ?thesis by blast
  next
    case False
    with Cons.prems have "containsCI cs tok" by simp
    from Cons.IH[OF this] obtain pre m post
      where "cs = pre @ m @ post" "map canonicalize m = map canonicalize tok" by blast
    then have "c # cs = (c # pre) @ m @ post" by simp
    with \<open>map canonicalize m = map canonicalize tok\<close> show ?thesis by blast
  qed
qed

lemma containsCI_regexTest:
  assumes "containsCI src tok"
    and "\<And>m s. map canonicalize m = map canonicalize tok \<Longrightarrow> matchHere p (m @ s)"
  shows "regexTest p src"
proof -
  from containsCI_decompose[OF assms(1)] obtain pre m post
    where src: "src = pre @ m @ post" and m: "map canonicalize m = map canonicalize tok" by blast
  from assms(2)[OF m] have "matchHere p (m @ post)" .
  then show ?thesis unfolding src by (rule regexTest_append)
qed

lemma dangerous_pattern_rejected:
  assumes "(p, msg) \<in> set dangerousPatterns" and "regexTest p src"
  shows "\<not> valid (validatePluginCode src) \<and> msg \<in> set (validation.errors (validatePluginCode src))"
proof -
  have "(p, msg) \<in> set (filter (\<lambda>(pattern, message). regexTest pattern src) dangerousPatterns)"
    using assms by simp
  then have "msg \<in> set (map snd (filter (\<lambda>(pattern, message). regexTest pattern src) dangerousPatterns))"
    by (simp only: set_map) (rule image_eqI[where x = "(p, msg)"], simp_all)
  then have "msg \<in> set (validationErrors src)" by (simp add: validationErrors_def)
  then show ?thesis by (auto simp: validatePluginCode_def)
qed

lemma accepts_callI:
  "(lit name @ [Star Whitespace] @ lit ''('', msg) \<in> set dangerousPatterns \<Longrightarrow> tok = name @ ''(''
     \<Longrightarrow> accepts tok msg"
  unfolding accepts_def using accepts_call by blast

lemma accepts_litI: "(lit tok, msg) \<in> set dangerousPatterns \<Longrightarrow> accepts tok msg"
  unfolding accepts_def using accepts_literal by blast

lemma accepts_importI:
  "isWhitespace w \<Longrightarrow> accepts (''import'' @ [w]) ''import statements are not allowed''"
  unfolding accepts_def using accepts_import
  by (intro exI[of _ "lit ''import'' @ [Plus Whitespace]"]) (simp add: dangerousPatterns_def)

lemma denylist_token_pattern:
  assumes "isWhitespace w"
  shows "list_all (\<lambda>(tok, msg). accepts tok msg) (denylistTokens w)"
proof -
  have 1: "accepts ''eval('' ''eval() is not allowed''"
    by (rule accepts_callI[of "''eval''"]) (simp_all add: dangerousPatterns_def)
  have 2: "accepts ''Function('' ''Function constructor is not allowed''"
    by (rule accepts_callI[of "''Function''"]) (simp_all add: dangerousPatterns_def)
  have 3: "accepts (''import'' @ [w]) ''import statements are not allowed''"
    using assms by (rule accepts_importI)
  have 4: "accepts ''require('' ''require() is not allowed''"
    by (rule accepts_callI[of "''require''"]) (simp_all add: dangerousPatterns_def)
  have 5: "accepts ''process.'' ''process access is not allowed''"
    by (rule accepts_litI) (simp add: dangerousPatterns_def)
  have 6: "accepts ''global.'' ''global access is not allowed''"
    by (rule accepts_litI) (simp add: dangerousPatterns_def)
  have 7: "accepts ''fetch('' ''fetch() is not allowed''"
    by (rule accepts_callI[of "''fetch''"]) (simp_all add: dangerousPatterns_def)
  have 8: "accepts ''XMLHttpRequest'' ''XMLHttpRequest is not allowed''"
    by (rule accepts_litI) (simp add: dangerousPatterns_def)
  have 9: "accepts ''__dirname'' ''__dirname is not allowed''"
    by (rule accepts_litI) (simp add: dangerousPatterns_def)
  have 10: "accepts ''__filename'' ''__filename is not allowed''"
    by (rule accepts_litI) (simp add: dangerousPatterns_def)
  show ?thesis
    unfolding denylistTokens_def using 1 2 3 4 5 6 7 8 9 10 by simp
qed

lemma if_True_else: "(if a then True else b) = (a \<or> b)"
  by simp

lemma take_length_eq_iff: "take (length x) s = x \<longleftrightarrow> (\<exists>post. s = x @ post)"
proof
  assume "take (length x) s = x"
  then have "s = x @ drop (length x) s" by (metis append_take_drop_id)
  then show "\<exists>post. s = x @ post" ..
next
  assume "\<exists>post. s = x @ post"
  then show "take (length x) s = x" by auto
qed

lemma stringIncludes_iff: "stringIncludes s x \<longleftrightarrow> (\<exists>pre post. s = pre @ x @ post)"
proof (induction s)
  case Nil
  then show ?case by auto
next
  case (Cons c cs)
  have "(\<exists>pre post. c # cs = pre @ x @ post) \<longleftrightarrow>
        (\<exists>post. c # cs = x @ post) \<or> (\<exists>pre post. cs = pre @ x @ post)"
  proof
    assume "\<exists>pre post. c # cs = pre @ x @ post"
    then obtain pre post where eq: "c # cs = pre @ x @ post" by blast
    show "(\<exists>post. c # cs = x @ post) \<or> (\<exists>pre post. cs = pre @ x @ post)"
    proof (cases pre)
      case Nil
      with eq show ?thesis by auto
    next
      case (Cons p ps)
      with eq have "cs = ps @ x @ post" by simp
      then show ?thesis by blast
    qed
  next
    assume "(\<exists>post. c # cs = x @ post) \<or> (\<exists>pre post. cs = pre @ x @ post)"
    then show "\<exists>pre post. c # cs = pre @ x @ post"
    proof
      assume "\<exists>post. c # cs = x @ post"
      then obtain post where "c # cs = [] @ x @ post" by auto
      then show ?thesis by blast
    next
      assume "\<exists>pre post. cs = pre @ x @ post"
      then obtain pre post where "cs = pre @ x @ post" by blast
      then have "c # cs = (c # pre) @ x @ post" by simp
      then show ?thesis by blast
    qed
  qed
  with Cons.IH show ?case by (simp only: stringIncludes.simps take_length_eq_iff if_True_else)
qed

text \<open>Validity, checked part by part.\<close>

lemma valid_by_parts:
  assumes "map snd (filter (\<lambda>(pattern, message). regexTest pattern src) dangerousPatterns) = []"
    and "length src \<le> 50000"
    and "stringIncludes src ''function calculate'' \<or> stringIncludes src ''function render''"
  shows "valid (validatePluginCode src)"
  using assms by (auto simp: validatePluginCode_def validationErrors_def)

text \<open>
  The sample plugins that misbehave in the executors and in the orchestrator pass the
  validator.
\<close>

lemma misbehaving_samples_are_valid:
  "valid (validatePluginCode src_busyLoop) \<and> valid (validatePluginCode src_endlessLoop)
   \<and> valid (validatePluginCode src_throwNull) \<and> valid (validatePluginCode src_number)
   \<and> valid (validatePluginCode src_setDate) \<and> valid (validatePluginCode src_readDate)
   \<and> valid (validatePluginCode src_topReturn) \<and> valid (validatePluginCode src_topThrow)"
proof -
  have 1: "valid (validatePluginCode src_busyLoop)"
    by (rule valid_by_parts) (code_simp, simp add: src_busyLoop_def, code_simp)
  have 2: "valid (validatePluginCode src_endlessLoop)"
    by (rule valid_by_parts) (code_simp, simp add: src_endlessLoop_def, code_simp)
  have 3: "valid (validatePluginCode src_throwNull)"
    by (rule valid_by_parts) (code_simp, simp add: src_throwNull_def, code_simp)
  have 4: "valid (validatePluginCode src_number)"
    by (rule valid_by_parts) (code_simp, simp add: src_number_def, code_simp)
  have 5: "valid (validatePluginCode src_setDate)"
    by (rule valid_by_parts) (code_simp, simp add: src_setDate_def, code_simp)
  have 6: "valid (validatePluginCode src_readDate)"
    by (rule valid_by_parts) (code_simp, simp add: src_readDate_def, code_simp)
  have 7: "valid (validatePluginCode src_topReturn)"
    by (rule valid_by_parts) (code_simp, simp add: src_topReturn_def, code_simp)
  have 8: "valid (validatePluginCode src_topThrow)"
    by (rule valid_by_parts) (code_simp, simp add: src_topThrow_def, code_simp)
  from 1 2 3 4 5 6 7 8 show ?thesis by (intro conjI)
qed

text \<open>
  C4. A source text that contains, in any letter case, one of \<^verbatim>\<open>eval(\<close>,
  \<^verbatim>\<open>Function(\<close>, \<^verbatim>\<open>require(\<close>, \<^verbatim>\<open>process.\<close>, \<^verbatim>\<open>global.\<close>, \<^verbatim>\<open>fetch(\<close>,
  \<^verbatim>\<open>XMLHttpRequest\<close>, \<^verbatim>\<open>__dirname\<close>, \<^verbatim>\<open>__filename\<close>, or \<^verbatim>\<open>import\<close> followed by a
  whitespace character, is invalid, and the error list holds the message of that pattern.
\<close>

theorem C4_denylisted_token_rejected:
  assumes "isWhitespace w" and "(tok, msg) \<in> set (denylistTokens w)" and "containsCI src tok"
  shows "\<not> valid (validatePluginCode src) \<and> msg \<in> set (validation.errors (validatePluginCode src))"
proof -
  from denylist_token_pattern[OF assms(1)] assms(2) have "accepts tok msg"
    by (auto simp: list_all_iff)
  then obtain p
    where p: "(p, msg) \<in> set dangerousPatterns"
      and acc: "\<And>m s. map canonicalize m = map canonicalize tok \<Longrightarrow> matchHere p (m @ s)"
    unfolding accepts_def by blast
  have "regexTest p src" using assms(3) acc by (rule containsCI_regexTest)
  with p show ?thesis by (rule dangerous_pattern_rejected)
qed

theorem C4_witness:
  "isWhitespace (CHR '' '')
   \<and> (''import '', ''import statements are not allowed'') \<in> set (denylistTokens (CHR '' ''))
   \<and> containsCI src_importStatement ''import ''
   \<and> \<not> valid (validatePluginCode src_importStatement)
   \<and> ''import statements are not allowed''
       \<in> set (validation.errors (validatePluginCode src_importStatement))"
proof -
  have 1: "isWhitespace (CHR '' '')" by (simp add: isWhitespace_def)
  have 2: "(''import '', ''import statements are not allowed'') \<in> set (denylistTokens (CHR '' ''))"
    by (simp add: denylistTokens_def)
  have 3: "containsCI src_importStatement ''import ''"
    by (simp add: src_importStatement_def canonicalize_def)
  from C4_denylisted_token_rejected[OF 1 2 3] 1 2 3 show ?thesis by simp
qed

text \<open>
  The bare token \<^verbatim>\<open>import\<close> is not enough. The pattern is
  \<^verbatim>\<open>/import\s+/gi\<close>: a dynamic \<^verbatim>\<open>import(...)\<close> contains the token and passes.
\<close>

theorem C4_counterexample:
  "containsCI src_dynamicImport ''import'' \<and> valid (validatePluginCode src_dynamicImport)"
proof -
  have "containsCI src_dynamicImport ''import''"
    by (simp add: src_dynamicImport_def canonicalize_def)
  moreover have "valid (validatePluginCode src_dynamicImport)"
    by (rule valid_by_parts) (code_simp, simp add: src_dynamicImport_def, code_simp)
  ultimately show ?thesis by simp
qed

text \<open>
  C8. A source text that contains neither the text \<^verbatim>\<open>function calculate\<close> nor the text
  \<^verbatim>\<open>function render\<close> is invalid, and the error list says that an entry point is
  missing.
\<close>

theorem C8_missing_entry_point_text:
  assumes "\<nexists>pre post. src = pre @ ''function calculate'' @ post"
    and "\<nexists>pre post. src = pre @ ''function render'' @ post"
  shows "\<not> valid (validatePluginCode src) \<and>
         ''Plugin must define at least calculate() or render() function''
           \<in> set (validation.errors (validatePluginCode src))"
proof -
  from assms have "\<not> stringIncludes src ''function calculate''" "\<not> stringIncludes src ''function render''"
    by (simp_all only: stringIncludes_iff not_False_eq_True)
  then have "''Plugin must define at least calculate() or render() function'' \<in> set (validationErrors src)"
    by (simp add: validationErrors_def)
  then show ?thesis by (auto simp: validatePluginCode_def)
qed

theorem C8_witness:
  "\<not> valid (validatePluginCode src_noHooks) \<and>
   ''Plugin must define at least calculate() or render() function''
     \<in> set (validation.errors (validatePluginCode src_noHooks))"
proof -
  have 1: "\<nexists>pre post. src_noHooks = pre @ ''function calculate'' @ post"
    unfolding stringIncludes_iff[symmetric] by (simp add: src_noHooks_def)
  have 2: "\<nexists>pre post. src_noHooks = pre @ ''function render'' @ post"
    unfolding stringIncludes_iff[symmetric] by (simp add: src_noHooks_def)
  show ?thesis using C8_missing_entry_point_text[OF 1 2] .
qed

text \<open>
  Declaring neither entry point is not enough for the text to be rejected. The check is
  on the text: \<open>src_calculateTotal\<close> declares a function of another name, is
  valid, and both executors find their entry point missing.
\<close>

theorem C8_counterexample:
  "valid (validatePluginCode src_calculateTotal)
   \<and> outcome (executePluginCalculation sampleEngine src_calculateTotal 3 sampleStore)
       = Fulfilled \<lparr>result = JNull, error = JStr ''Plugin must export a calculate() function''\<rparr>
   \<and> outcome (executePluginRender sampleEngine src_calculateTotal 3 sampleStore)
       = Fulfilled \<lparr>result = JNull, error = JStr ''Plugin must export a render() function''\<rparr>"
proof -
  have "valid (validatePluginCode src_calculateTotal)"
    by (rule valid_by_parts) (code_simp, simp add: src_calculateTotal_def, code_simp)
  moreover have "outcome (executePluginCalculation sampleEngine src_calculateTotal 3 sampleStore)
       = Fulfilled \<lparr>result = JNull, error = JStr ''Plugin must export a calculate() function''\<rparr>"
    by (simp add: sample_eval sampleStore_def)
  moreover have "outcome (executePluginRender sampleEngine src_calculateTotal 3 sampleStore)
       = Fulfilled \<lparr>result = JNull, error = JStr ''Plugin must export a render() function''\<rparr>"
    by (simp add: sample_eval sampleStore_def)
  ultimately show ?thesis by simp
qed

end
